theory Spec2Isabelle
  imports Complex_Main
begin

section \<open>Values of the numeric arrays\<close>

text \<open>
  The cells of the cost matrices are double-precision numbers. They are modelled as real
  numbers extended by the three special values the program can produce or test for:
  \<open>numpy.inf\<close>, its negation, and the not-a-number that a division \<open>0/0\<close> yields.
  Rounding is not modelled: arithmetic on finite values is the arithmetic of the reals.
\<close>

datatype fl = Fin real | PInf | NInf | NaN

datatype error = IndexError | ValueError | ZeroDivisionError | RuntimeError
  | DTWAlignerNotInitialized

fun is_nan :: "fl \<Rightarrow> bool" where
  "is_nan NaN = True"
| "is_nan _ = False"

fun fadd :: "fl \<Rightarrow> fl \<Rightarrow> fl" where
  "fadd NaN _ = NaN"
| "fadd _ NaN = NaN"
| "fadd (Fin a) (Fin b) = Fin (a + b)"
| "fadd PInf NInf = NaN"
| "fadd NInf PInf = NaN"
| "fadd PInf _ = PInf"
| "fadd _ PInf = PInf"
| "fadd NInf _ = NInf"
| "fadd _ NInf = NInf"

text \<open>\<open>a < b\<close> on doubles: false as soon as one side is not a number.\<close>

fun flt :: "fl \<Rightarrow> fl \<Rightarrow> bool" where
  "flt NaN _ = False"
| "flt _ NaN = False"
| "flt (Fin a) (Fin b) = (a < b)"
| "flt (Fin a) PInf = True"
| "flt NInf (Fin b) = True"
| "flt NInf PInf = True"
| "flt _ _ = False"

text \<open>\<open>a <= b\<close> and \<open>a >= b\<close> on doubles.\<close>

fun fle :: "fl \<Rightarrow> fl \<Rightarrow> bool" where
  "fle NaN _ = False"
| "fle _ NaN = False"
| "fle a b = (a = b \<or> flt a b)"

definition fge :: "fl \<Rightarrow> fl \<Rightarrow> bool" where
  "fge a b = fle b a"

text \<open>
  \<open>x / y\<close> on numpy doubles with finite operands: a zero divisor raises nothing, it
  yields not-a-number for \<open>0/0\<close> and a signed infinity otherwise.
\<close>

definition np_divide :: "real \<Rightarrow> real \<Rightarrow> fl" where
  "np_divide x y =
     (if y \<noteq> 0 then Fin (x / y)
      else if x = 0 then NaN
      else if 0 < x then PInf else NInf)"

text \<open>\<open>1 - tmp\<close>.\<close>

fun one_minus :: "fl \<Rightarrow> fl" where
  "one_minus (Fin x) = Fin (1 - x)"
| "one_minus PInf = NInf"
| "one_minus NInf = PInf"
| "one_minus NaN = NaN"

text \<open>
  Python's builtin \<open>min(a, b, c)\<close>: it keeps the first argument and replaces it by a
  later one only when that one compares strictly smaller.
\<close>

definition pymin3 :: "fl \<Rightarrow> fl \<Rightarrow> fl \<Rightarrow> fl" where
  "pymin3 a b c = (let r = (if flt b a then b else a) in if flt c r then c else r)"

text \<open>
  \<open>numpy.argmin([c0, c1, c2])\<close>: the scan of numpy's double argmin. It returns at
  once on a not-a-number, and moves to a later position only when that value is not
  \<open>>=\<close> the current minimum, so the first of several equal minima wins.
\<close>

definition np_argmin3 :: "fl \<Rightarrow> fl \<Rightarrow> fl \<Rightarrow> nat" where
  "np_argmin3 c0 c1 c2 =
     (if is_nan c0 then 0
      else if \<not> fge c1 c0 then
        (if is_nan c1 then 1 else if \<not> fge c2 c1 then 2 else 1)
      else if \<not> fge c2 c0 then 2 else 0)"

text \<open>
  Python's sum of the cells of a list, left to right from \<open>0\<close>.
\<close>

definition fsum :: "fl list \<Rightarrow> fl" where
  "fsum xs = foldl fadd (Fin 0) xs"

section \<open>Arrays\<close>

text \<open>
  A two-dimensional array is the list of its rows. \<open>ncols\<close> is \<open>shape[1]\<close>, read from
  the first row (numpy arrays are rectangular); an MFCC matrix with no row at all is
  outside the model. \<open>put M i j v\<close> is the assignment \<open>M[i][j] = v\<close> at an index
  inside the array.
\<close>

definition ncols :: "'a list list \<Rightarrow> nat" where
  "ncols M = (case M of [] \<Rightarrow> 0 | r # _ \<Rightarrow> length r)"

definition put :: "'a list list \<Rightarrow> nat \<Rightarrow> nat \<Rightarrow> 'a \<Rightarrow> 'a list list" where
  "put M i j v = M[i := (M ! i)[j := v]]"

text \<open>
  \<open>row[k]\<close> where \<open>k\<close> is a \<open>numpy.float64\<close>: numpy takes integers as indices
  only, and raises \<open>IndexError\<close> on a double whatever its value. The second argument
  is the value of the double, which is always a whole number here.
\<close>

definition float_item :: "'a list \<Rightarrow> int \<Rightarrow> error + 'a" where
  "float_item row k = Inl IndexError"

section \<open>The cost kernel\<close>

text \<open>
  An MFCC matrix has one row per coefficient and one column per frame.
  \<open>column M i\<close> is \<open>M[:, i]\<close>, \<open>tl M\<close> is \<open>M[1:, :]\<close>, \<open>dot\<close> is the inner product of
  two vectors, and \<open>norm2\<close> is \<open>numpy.sqrt(numpy.sum(M ** 2, 0))\<close>, for the \<open>L\<close>
  columns of \<open>M\<close>.
\<close>

type_synonym mfcc = "real list list"

definition column :: "mfcc \<Rightarrow> nat \<Rightarrow> real list" where
  "column M i = map (\<lambda>r. r ! i) M"

definition dot :: "real list \<Rightarrow> real list \<Rightarrow> real" where
  "dot u v = sum_list (map (\<lambda>(x, y). x * y) (zip u v))"

definition norm2 :: "mfcc \<Rightarrow> nat \<Rightarrow> real list" where
  "norm2 M L = map (\<lambda>i. sqrt (sum_list (map (\<lambda>x. x ^ 2) (column M i)))) [0..<L]"

text \<open>
  One cell of either cost matrix: the inner product of column \<open>i\<close> of the first matrix
  and column \<open>j\<close> of the second, divided by the product of their norms, taken from one.
\<close>

definition cost_cell :: "mfcc \<Rightarrow> mfcc \<Rightarrow> real list \<Rightarrow> real list \<Rightarrow> nat \<Rightarrow> nat \<Rightarrow> fl" where
  "cost_cell mfcc1 mfcc2 norm2_1 norm2_2 i j =
     one_minus (np_divide (dot (column mfcc1 i) (column mfcc2 j)) (norm2_1 ! i * norm2_2 ! j))"

section \<open>The exact engine\<close>

text \<open>
  \<open>DTWExact._compute_cost_matrix\<close>. The matrix product raises \<open>ValueError\<close> when
  the two matrices do not have the same number of coefficients.
\<close>

definition exact_compute_cost_matrix :: "mfcc \<Rightarrow> mfcc \<Rightarrow> error + fl list list" where
  "exact_compute_cost_matrix m1 m2 =
     (let mfcc1 = tl m1; mfcc2 = tl m2;
          n = ncols m1; m = ncols m2;
          norm2_1 = norm2 mfcc1 n; norm2_2 = norm2 mfcc2 m
      in if length mfcc1 \<noteq> length mfcc2 then Inl ValueError
         else Inr (map (\<lambda>i. map (\<lambda>j. cost_cell mfcc1 mfcc2 norm2_1 norm2_2 i j) [0..<m]) [0..<n]))"

text \<open>
  \<open>DTWExact._compute_acm_in_place\<close>: the first row (the loop \<open>acm_first_row\<close>,
  which \<open>DTWStripe._compute_acm_in_place\<close> has too, with the body
  \<open>first_row_cell\<close>), then each row (the body of its loop is \<open>exact_cell\<close>) \<open>i\<close> from its
  saved copy \<open>current_row\<close> and the rows \<open>i - 1\<close> and \<open>i\<close> of the matrix being
  overwritten. An array with no row raises \<open>IndexError\<close> at \<open>cost_matrix[0, :]\<close>, and
  one with no column and two rows or more at \<open>cost_matrix[i-1][0]\<close>.
\<close>

definition first_row_cell :: "fl list \<Rightarrow> nat \<Rightarrow> fl list list \<Rightarrow> fl list list" where
  "first_row_cell current_row j M = put M 0 j (fadd (current_row ! j) (M ! 0 ! (j - 1)))"

definition acm_first_row :: "nat \<Rightarrow> fl list list \<Rightarrow> fl list list" where
  "acm_first_row m cost_matrix =
     (let current_row = cost_matrix ! 0
      in fold (first_row_cell current_row) [1..<m] cost_matrix)"

definition exact_cell :: "fl list \<Rightarrow> nat \<Rightarrow> nat \<Rightarrow> fl list list \<Rightarrow> fl list list" where
  "exact_cell current_row i j M =
     put M i j (fadd (current_row ! j)
       (pymin3 (M ! (i - 1) ! j) (M ! i ! (j - 1)) (M ! (i - 1) ! (j - 1))))"

definition exact_row :: "nat \<Rightarrow> nat \<Rightarrow> fl list list \<Rightarrow> fl list list" where
  "exact_row m i cost_matrix =
     (let current_row = cost_matrix ! i;
          M0 = put cost_matrix i 0 (fadd (cost_matrix ! (i - 1) ! 0) (current_row ! 0))
      in fold (exact_cell current_row i) [1..<m] M0)"

definition exact_acm_in_place :: "fl list list \<Rightarrow> error + fl list list" where
  "exact_acm_in_place cost_matrix =
     (let n = length cost_matrix; m = ncols cost_matrix
      in if n = 0 then Inl IndexError
         else if m = 0 \<and> 2 \<le> n then Inl IndexError
         else Inr (fold (exact_row m) [1..<n] (acm_first_row m cost_matrix)))"

text \<open>\<open>DTWExact.compute_accumulated_cost_matrix\<close>.\<close>

definition exact_compute_accumulated_cost_matrix :: "mfcc \<Rightarrow> mfcc \<Rightarrow> error + fl list list" where
  "exact_compute_accumulated_cost_matrix m1 m2 =
     (case exact_compute_cost_matrix m1 m2 of
        Inl e \<Rightarrow> Inl e
      | Inr cost_matrix \<Rightarrow> exact_acm_in_place cost_matrix)"

text \<open>
  \<open>DTWExact._compute_best_path\<close>. A path is a list of index pairs. The loop runs on
  \<open>i\<close> and \<open>j\<close> and appends to \<open>path\<close>; the list is reversed once the loop ends. With
  at least one column, \<open>i\<close> and \<open>j\<close> never leave the array, so no read raises. With no
  column \<open>j\<close> starts at \<open>-1\<close>: the loop is not entered when there is one row, and the
  accumulation has raised before when there are more.
\<close>

type_synonym path = "(nat \<times> int) list"

definition exact_move :: "fl list list \<Rightarrow> nat \<Rightarrow> nat \<Rightarrow> nat \<times> nat" where
  "exact_move acc_matrix i j =
     (let costs0 = acc_matrix ! (i - 1) ! j;
          costs1 = acc_matrix ! i ! (j - 1);
          costs2 = acc_matrix ! (i - 1) ! (j - 1);
          moves = [(i - 1, j), (i, j - 1), (i - 1, j - 1)];
          min_cost = np_argmin3 costs0 costs1 costs2
      in moves ! min_cost)"

function exact_loop :: "fl list list \<Rightarrow> nat \<Rightarrow> nat \<Rightarrow> path \<Rightarrow> path" where
  "exact_loop acc_matrix i j path =
     (if 0 < i \<or> 0 < j then
        if i = 0 then exact_loop acc_matrix 0 (j - 1) (path @ [(0, int (j - 1))])
        else if j = 0 then exact_loop acc_matrix (i - 1) 0 (path @ [(i - 1, 0)])
        else
          (let min_move = exact_move acc_matrix i j
           in exact_loop acc_matrix (fst min_move) (snd min_move)
                (path @ [(fst min_move, int (snd min_move))]))
      else path)"
  by pat_completeness auto

lemma np_argmin3_less: "np_argmin3 c0 c1 c2 < 3"
  by (simp add: np_argmin3_def)

lemma exact_move_cases:
  "exact_move acc_matrix i j \<in> {(i - 1, j), (i, j - 1), (i - 1, j - 1)}"
proof -
  have "np_argmin3 (acc_matrix ! (i - 1) ! j) (acc_matrix ! i ! (j - 1))
          (acc_matrix ! (i - 1) ! (j - 1)) \<in> {0, 1, 2}"
    using np_argmin3_less [of "acc_matrix ! (i - 1) ! j" "acc_matrix ! i ! (j - 1)"
        "acc_matrix ! (i - 1) ! (j - 1)"] by auto
  then show ?thesis
    by (auto simp: exact_move_def Let_def)
qed

termination exact_loop
proof (relation "measure (\<lambda>(acc_matrix, i, j, path). i + j)", goal_cases)
  case 1
  show ?case by simp
next
  case (2 acc_matrix i j path)
  then show ?case by simp
next
  case (3 acc_matrix i j path)
  then show ?case by simp
next
  case (4 acc_matrix i j path x)
  with exact_move_cases [of acc_matrix i j] show ?case by auto
qed

definition exact_compute_best_path :: "fl list list \<Rightarrow> path" where
  "exact_compute_best_path acc_matrix =
     (let n = length acc_matrix; m = ncols acc_matrix
      in if m = 0 then [(0, - 1)]
         else rev (exact_loop acc_matrix (n - 1) (m - 1) [(n - 1, int (m - 1))]))"

text \<open>\<open>DTWExact.compute_path\<close>.\<close>

definition exact_compute_path :: "mfcc \<Rightarrow> mfcc \<Rightarrow> error + path" where
  "exact_compute_path m1 m2 =
     (case exact_compute_accumulated_cost_matrix m1 m2 of
        Inl e \<Rightarrow> Inl e
      | Inr accumulated_cost_matrix \<Rightarrow> Inr (exact_compute_best_path accumulated_cost_matrix))"

section \<open>The stripe engine\<close>

text \<open>
  The portable (pure Python) code of \<open>DTWStripe\<close> is modelled. \<open>centers\<close> is
  \<open>numpy.zeros(n)\<close>, an array of doubles that only ever holds whole numbers. Its cells,
  and the column indices \<open>j\<close> derived from them, are modelled by their integer values;
  where such a value is used as an index, the read is \<open>float_item\<close>.

  \<open>stripe_range n m delta i\<close> is the pair \<open>(range_start, range_end)\<close> that the body
  of the loop of \<open>DTWStripe._compute_cost_matrix\<close> computes at row \<open>i\<close>, and
  \<open>stripe_cost_row\<close> is the inner loop over \<open>j\<close>, which writes into a row of zeros.
\<close>

definition stripe_range :: "nat \<Rightarrow> nat \<Rightarrow> nat \<Rightarrow> nat \<Rightarrow> int \<times> int" where
  "stripe_range n m delta i =
     (let center_j = (int m * int i) div int n;
          range_start = max 0 (center_j - int delta div 2);
          range_end = range_start + int delta
      in if range_end > int m then (int m - int delta, int m) else (range_start, range_end))"

definition stripe_cost_row ::
    "mfcc \<Rightarrow> mfcc \<Rightarrow> real list \<Rightarrow> real list \<Rightarrow> nat \<Rightarrow> nat \<Rightarrow> int \<times> int \<Rightarrow> fl list" where
  "stripe_cost_row mfcc1 mfcc2 norm2_1 norm2_2 delta i r =
     fold (\<lambda>j row. row[j - nat (fst r) := cost_cell mfcc1 mfcc2 norm2_1 norm2_2 i j])
       [nat (fst r)..<nat (snd r)] (replicate delta (Fin 0))"

text \<open>
  \<open>DTWStripe._compute_cost_matrix\<close>. \<open>clamp_delta\<close> is its limiting of \<open>delta\<close>
  to \<open>m\<close>, and \<open>stripe_centers\<close> is the array \<open>centers\<close> it fills.
  \<open>numpy.zeros\<close> raises \<open>ValueError\<close> on a negative dimension, and the inner
  product of two columns does when the two matrices do not have the same number of
  coefficients.
\<close>

definition clamp_delta :: "nat \<Rightarrow> int \<Rightarrow> int" where
  "clamp_delta m delta = (if delta > int m then int m else delta)"

definition stripe_centers :: "nat \<Rightarrow> nat \<Rightarrow> nat \<Rightarrow> int list" where
  "stripe_centers n m delta = map (\<lambda>i. fst (stripe_range n m delta i)) [0..<n]"

definition stripe_compute_cost_matrix ::
    "mfcc \<Rightarrow> mfcc \<Rightarrow> int \<Rightarrow> error + fl list list \<times> int list" where
  "stripe_compute_cost_matrix m1 m2 delta0 =
     (let mfcc1 = tl m1; mfcc2 = tl m2;
          n = ncols m1; m = ncols m2;
          norm2_1 = norm2 mfcc1 n; norm2_2 = norm2 mfcc2 m;
          delta = clamp_delta m delta0
      in if delta < 0 then Inl ValueError
         else if 0 < n \<and> 0 < delta \<and> length mfcc1 \<noteq> length mfcc2 then Inl ValueError
         else Inr (map (\<lambda>i. stripe_cost_row mfcc1 mfcc2 norm2_1 norm2_2 (nat delta) i
                              (stripe_range n m (nat delta) i)) [0..<n],
                   stripe_centers n m (nat delta)))"

text \<open>A loop whose body can raise: the first error ends it.\<close>

fun fold_err :: "('a \<Rightarrow> 's \<Rightarrow> error + 's) \<Rightarrow> 'a list \<Rightarrow> 's \<Rightarrow> error + 's" where
  "fold_err f [] s = Inr s"
| "fold_err f (x # xs) s = (case f x s of Inl e \<Rightarrow> Inl e | Inr s' \<Rightarrow> fold_err f xs s')"

text \<open>
  \<open>DTWStripe._compute_acm_in_place\<close>. \<open>stripe_cell\<close> is the body of the inner loop
  at local column \<open>j\<close> of row \<open>i\<close>. \<open>offset\<close> is the difference of two cells of
  \<open>centers\<close>, a double: the reads of \<open>cost0\<close> and \<open>cost2\<close>, whose indices are sums
  with \<open>offset\<close>, are reads at a double, and the read of \<open>cost1\<close> is at the integer
  \<open>j - 1\<close>.
\<close>

definition stripe_cell ::
    "int \<Rightarrow> nat \<Rightarrow> fl list \<Rightarrow> nat \<Rightarrow> nat \<Rightarrow> fl list list \<Rightarrow> error + fl list list" where
  "stripe_cell offset delta current_row i j M =
     (case (if int j + offset < int delta then float_item (M ! (i - 1)) (int j + offset)
            else Inr PInf) of
        Inl e \<Rightarrow> Inl e
      | Inr cost0 \<Rightarrow>
          (let cost1 = (if 0 < j then M ! i ! (j - 1) else PInf)
           in case (if int j + offset - 1 < int delta \<and> int j + offset - 1 \<ge> 0
                    then float_item (M ! (i - 1)) (int j + offset - 1) else Inr PInf) of
                Inl e \<Rightarrow> Inl e
              | Inr cost2 \<Rightarrow>
                  Inr (put M i j (fadd (current_row ! j) (pymin3 cost0 cost1 cost2)))))"

definition stripe_row :: "int list \<Rightarrow> nat \<Rightarrow> nat \<Rightarrow> fl list list \<Rightarrow> error + fl list list" where
  "stripe_row centers delta i M =
     (let current_row = M ! i;
          offset = centers ! i - centers ! (i - 1)
      in fold_err (stripe_cell offset delta current_row i) [0..<delta] M)"

definition stripe_acm_in_place :: "fl list list \<Rightarrow> int list \<Rightarrow> error + fl list list" where
  "stripe_acm_in_place cost_matrix centers =
     (let n = length cost_matrix; delta = ncols cost_matrix
      in if n = 0 then Inl IndexError
         else fold_err (stripe_row centers delta) [1..<n] (acm_first_row delta cost_matrix))"

text \<open>
  \<open>DTWStripe._compute_best_path\<close>. \<open>stripe_costs\<close> is the three guarded reads of
  the interior branch. \<open>j\<close> starts as a sum with a cell of \<open>centers\<close>, so \<open>j\<close>,
  \<open>r_j\<close> and \<open>offset\<close> are doubles, and each of the three reads is a read at a
  double.
\<close>

definition stripe_costs ::
    "fl list list \<Rightarrow> int list \<Rightarrow> int \<Rightarrow> nat \<Rightarrow> int \<Rightarrow> error + fl \<times> fl \<times> fl" where
  "stripe_costs acc_matrix centers delta i j =
     (let offset = centers ! i - centers ! (i - 1);
          r_j = j - centers ! i
      in case (if r_j + offset < delta then float_item (acc_matrix ! (i - 1)) (r_j + offset)
               else Inr PInf) of
           Inl e \<Rightarrow> Inl e
         | Inr cost0 \<Rightarrow>
            (case (if r_j > 0 then float_item (acc_matrix ! i) (r_j - 1) else Inr PInf) of
               Inl e \<Rightarrow> Inl e
             | Inr cost1 \<Rightarrow>
                (case (if r_j > 0 \<and> r_j + offset - 1 < delta \<and> r_j + offset - 1 \<ge> 0
                       then float_item (acc_matrix ! (i - 1)) (r_j + offset - 1) else Inr PInf) of
                   Inl e \<Rightarrow> Inl e
                 | Inr cost2 \<Rightarrow> Inr (cost0, cost1, cost2))))"

definition stripe_move :: "fl \<times> fl \<times> fl \<Rightarrow> nat \<Rightarrow> int \<Rightarrow> nat \<times> int" where
  "stripe_move costs i j =
     (let moves = [(i - 1, j), (i, j - 1), (i - 1, j - 1)];
          min_cost = np_argmin3 (fst costs) (fst (snd costs)) (snd (snd costs))
      in moves ! min_cost)"

function stripe_loop ::
    "fl list list \<Rightarrow> int list \<Rightarrow> int \<Rightarrow> nat \<Rightarrow> int \<Rightarrow> path \<Rightarrow> error + path" where
  "stripe_loop acc_matrix centers delta i j path =
     (if 0 < i \<or> 0 < j then
        if i = 0 then stripe_loop acc_matrix centers delta 0 (j - 1) (path @ [(0, j - 1)])
        else if j = 0 then stripe_loop acc_matrix centers delta (i - 1) 0 (path @ [(i - 1, 0)])
        else
          (case stripe_costs acc_matrix centers delta i j of
             Inl e \<Rightarrow> Inl e
           | Inr costs \<Rightarrow>
               (let min_move = stripe_move costs i j
                in stripe_loop acc_matrix centers delta (fst min_move) (snd min_move)
                     (path @ [min_move])))
      else Inr path)"
  by pat_completeness auto

lemma np_argmin3_PInf: "np_argmin3 c0 PInf PInf = 0"
  by (cases c0) (simp_all add: np_argmin3_def fge_def)

lemma stripe_costs_left:
  "stripe_costs acc_matrix centers delta i j = Inr costs \<Longrightarrow> \<not> 0 < j - centers ! i \<Longrightarrow>
   fst (snd costs) = PInf \<and> snd (snd costs) = PInf"
  by (auto simp: stripe_costs_def Let_def split: sum.splits if_splits)

lemma stripe_move_cases:
  "stripe_move costs i j \<in> {(i - 1, j), (i, j - 1), (i - 1, j - 1)}"
proof -
  have "np_argmin3 (fst costs) (fst (snd costs)) (snd (snd costs)) \<in> {0, 1, 2}"
    using np_argmin3_less [of "fst costs" "fst (snd costs)" "snd (snd costs)"] by auto
  then show ?thesis
    by (auto simp: stripe_move_def Let_def)
qed

lemma stripe_move_left:
  assumes "stripe_costs acc_matrix centers delta i j = Inr costs" "0 < i"
    and "stripe_move costs i j = (i, j - 1)"
  shows "0 < j - centers ! i"
proof (rule ccontr)
  assume "\<not> 0 < j - centers ! i"
  with assms(1) have "fst (snd costs) = PInf \<and> snd (snd costs) = PInf"
    by (rule stripe_costs_left)
  then have "stripe_move costs i j = (i - 1, j)"
    by (simp add: stripe_move_def np_argmin3_PInf)
  with assms(2,3) show False by simp
qed

text \<open>
  The loop ends: a move up or along the diagonal lowers \<open>i\<close>, and a move to the left is
  only chosen while \<open>r_j\<close> is positive, which it lowers.
\<close>

termination stripe_loop
proof (relation "measures [\<lambda>(acc_matrix, centers, delta, i, j, path). i,
    \<lambda>(acc_matrix, centers, delta, i, j, path). if i = 0 then nat j else nat (j - centers ! i)]",
    goal_cases)
  case 1
  show ?case by simp
next
  case (2 acc_matrix centers delta i j path)
  then show ?case by auto
next
  case (3 acc_matrix centers delta i j path)
  then show ?case by auto
next
  case (4 acc_matrix centers delta i j path costs min_move)
  from stripe_move_cases [of costs i j]
  consider "min_move = (i - 1, j)" | "min_move = (i, j - 1)" | "min_move = (i - 1, j - 1)"
    using 4 by auto
  then show ?case
  proof cases
    case 2
    with 4 stripe_move_left [of acc_matrix centers delta i j costs]
    have "0 < j - centers ! i" by simp
    with 2 4 show ?thesis by auto
  qed (use 4 in auto)
qed

text \<open>
  The start of \<open>DTWStripe._compute_best_path\<close> and the reversal that ends it. It is
  reached after the accumulation has succeeded, so the array has a row.
\<close>

definition stripe_compute_best_path :: "fl list list \<Rightarrow> int list \<Rightarrow> error + path" where
  "stripe_compute_best_path acc_matrix centers =
     (let n = length acc_matrix; delta = int (ncols acc_matrix);
          i = n - 1;
          j = delta - 1 + centers ! i
      in case stripe_loop acc_matrix centers delta i j [(i, j)] of
           Inl e \<Rightarrow> Inl e
         | Inr path \<Rightarrow> Inr (rev path))"

text \<open>
  \<open>DTWStripe._compute_acm_pure_python\<close> and \<open>DTWStripe._compute_path_pure_python\<close>,
  with the exception they catch as the error value.
\<close>

definition stripe_compute_acm_pure_python :: "mfcc \<Rightarrow> mfcc \<Rightarrow> int \<Rightarrow> error + fl list list" where
  "stripe_compute_acm_pure_python m1 m2 delta =
     (case stripe_compute_cost_matrix m1 m2 delta of
        Inl e \<Rightarrow> Inl e
      | Inr (cost_matrix, centers) \<Rightarrow> stripe_acm_in_place cost_matrix centers)"

definition stripe_compute_path_pure_python :: "mfcc \<Rightarrow> mfcc \<Rightarrow> int \<Rightarrow> error + path" where
  "stripe_compute_path_pure_python m1 m2 delta =
     (case stripe_compute_cost_matrix m1 m2 delta of
        Inl e \<Rightarrow> Inl e
      | Inr (cost_matrix, centers) \<Rightarrow>
          (case stripe_acm_in_place cost_matrix centers of
             Inl e \<Rightarrow> Inl e
           | Inr accumulated_cost_matrix \<Rightarrow>
               stripe_compute_best_path accumulated_cost_matrix centers))"

text \<open>
  Modelled from the spec: \<open>gf.run_c_extension_with_fallback\<close>, which is not among the
  sources. The native fast path is taken as unavailable (it has to match the portable
  code where it exists), so the portable function decides; when that one has failed, the
  call ends in \<open>RuntimeError\<close>.
\<close>

definition run_c_extension_with_fallback :: "error + 'a \<Rightarrow> error + 'a" where
  "run_c_extension_with_fallback py_result =
     (case py_result of Inl e \<Rightarrow> Inl RuntimeError | Inr result \<Rightarrow> Inr result)"

text \<open>\<open>DTWStripe.compute_accumulated_cost_matrix\<close> and \<open>DTWStripe.compute_path\<close>.\<close>

definition stripe_compute_accumulated_cost_matrix ::
    "mfcc \<Rightarrow> mfcc \<Rightarrow> int \<Rightarrow> error + fl list list" where
  "stripe_compute_accumulated_cost_matrix m1 m2 delta =
     run_c_extension_with_fallback (stripe_compute_acm_pure_python m1 m2 delta)"

definition stripe_compute_path :: "mfcc \<Rightarrow> mfcc \<Rightarrow> int \<Rightarrow> error + path" where
  "stripe_compute_path m1 m2 delta =
     run_c_extension_with_fallback (stripe_compute_path_pure_python m1 m2 delta)"

section \<open>The aligner\<close>

datatype algorithm = EXACT | STRIPE

record rconf =
  dtw_algorithm :: algorithm
  dtw_margin :: real
  mfcc_win_shift :: real
  c_ext :: bool

record audiofilemfcc =
  middle_mfcc :: "mfcc option"
  head_length :: nat

text \<open>
  Modelled from the spec: \<open>AudioFileMFCC.middle_length\<close>, which is not among the
  sources, is the number \<open>L\<close> of frames of the middle region.
\<close>

definition middle_length :: "audiofilemfcc \<Rightarrow> nat" where
  "middle_length a = (case middle_mfcc a of None \<Rightarrow> 0 | Some M \<Rightarrow> ncols M)"

record aligner =
  real_wave_mfcc :: "audiofilemfcc option"
  synt_wave_mfcc :: "audiofilemfcc option"
  rconf :: rconf
  computed_path :: "(nat list \<times> int list) option"

datatype dtw = DTWExact mfcc mfcc | DTWStripe mfcc mfcc int

text \<open>\<open>int(x)\<close> on a real number rounds towards zero.\<close>

definition py_int :: "real \<Rightarrow> int" where
  "py_int x = (if 0 \<le> x then \<lfloor>x\<rfloor> else \<lceil>x\<rceil>)"

text \<open>
  \<open>DTWAligner._setup_dtw\<close>. \<open>derived_delta\<close> is its expression for \<open>delta\<close>, and
  \<open>can_run_c_extension\<close> is the answer of \<open>gf.can_run_c_extension()\<close>. The division
  raises on a zero window shift.
\<close>

definition derived_delta :: "rconf \<Rightarrow> int" where
  "derived_delta rc = py_int (2 * dtw_margin rc / mfcc_win_shift rc)"

definition setup_dtw :: "bool \<Rightarrow> aligner \<Rightarrow> error + dtw" where
  "setup_dtw can_run_c_extension a =
     (case real_wave_mfcc a of
        None \<Rightarrow> Inl DTWAlignerNotInitialized
      | Some rw \<Rightarrow>
     (case middle_mfcc rw of
        None \<Rightarrow> Inl DTWAlignerNotInitialized
      | Some m1 \<Rightarrow>
     (case synt_wave_mfcc a of
        None \<Rightarrow> Inl DTWAlignerNotInitialized
      | Some sw \<Rightarrow>
     (case middle_mfcc sw of
        None \<Rightarrow> Inl DTWAlignerNotInitialized
      | Some m2 \<Rightarrow>
          if mfcc_win_shift (rconf a) = 0 then Inl ZeroDivisionError
          else
            (let delta = derived_delta (rconf a);
                 mfcc2_length = middle_length sw;
                 algorithm =
                   (if int mfcc2_length \<le> delta
                    then (if c_ext (rconf a) \<and> can_run_c_extension
                          then dtw_algorithm (rconf a) else EXACT)
                    else dtw_algorithm (rconf a))
             in if algorithm = EXACT then Inr (DTWExact m1 m2)
                else Inr (DTWStripe m1 m2 delta))))))"

fun dtw_compute_accumulated_cost_matrix :: "dtw \<Rightarrow> error + fl list list" where
  "dtw_compute_accumulated_cost_matrix (DTWExact m1 m2) =
     exact_compute_accumulated_cost_matrix m1 m2"
| "dtw_compute_accumulated_cost_matrix (DTWStripe m1 m2 delta) =
     stripe_compute_accumulated_cost_matrix m1 m2 delta"

fun dtw_compute_path :: "dtw \<Rightarrow> error + path" where
  "dtw_compute_path (DTWExact m1 m2) = exact_compute_path m1 m2"
| "dtw_compute_path (DTWStripe m1 m2 delta) = stripe_compute_path m1 m2 delta"

text \<open>
  \<open>DTWAligner.compute_accumulated_cost_matrix\<close> and \<open>DTWAligner.compute_path\<close>;
  the latter returns the aligner with the path stored.
\<close>

definition compute_accumulated_cost_matrix :: "bool \<Rightarrow> aligner \<Rightarrow> error + fl list list" where
  "compute_accumulated_cost_matrix can_run_c_extension a =
     (case setup_dtw can_run_c_extension a of
        Inl e \<Rightarrow> Inl e
      | Inr dtw \<Rightarrow> dtw_compute_accumulated_cost_matrix dtw)"

definition compute_path :: "bool \<Rightarrow> aligner \<Rightarrow> error + aligner" where
  "compute_path can_run_c_extension a =
     (case setup_dtw can_run_c_extension a of
        Inl e \<Rightarrow> Inl e
      | Inr dtw \<Rightarrow>
          (case dtw_compute_path dtw of
             Inl e \<Rightarrow> Inl e
           | Inr wave_path \<Rightarrow>
               (let real_indices = map fst wave_path;
                    synt_indices = map snd wave_path;
                    real_indices = map (\<lambda>r. r + head_length (the (real_wave_mfcc a))) real_indices
                in Inr (a\<lparr>computed_path := Some (real_indices, synt_indices)\<rparr>))))"

section \<open>Valid inputs\<close>

text \<open>
  A valid MFCC matrix has at least two coefficients and one frame, and rows of one
  length. A valid pair has the same number of coefficients on both sides and no column
  whose norm, taken without the first coefficient, is zero.
\<close>

definition wf_mfcc :: "mfcc \<Rightarrow> bool" where
  "wf_mfcc M = (2 \<le> length M \<and> 1 \<le> ncols M \<and> list_all (\<lambda>r. length r = ncols M) M)"

definition valid_pair :: "mfcc \<Rightarrow> mfcc \<Rightarrow> bool" where
  "valid_pair m1 m2 =
     (wf_mfcc m1 \<and> wf_mfcc m2 \<and> length m1 = length m2 \<and>
      list_all (\<lambda>x. x \<noteq> 0) (norm2 (tl m1) (ncols m1)) \<and>
      list_all (\<lambda>x. x \<noteq> 0) (norm2 (tl m2) (ncols m2)))"

section \<open>The cost matrices, cell by cell\<close>

lemma fold_update_nth:
  "length row = d \<Longrightarrow> k \<le> d \<Longrightarrow>
   fold (\<lambda>j row. row[j - s := f j]) [s..<s + k] row =
     map (\<lambda>t. if t < k then f (s + t) else row ! t) [0..<d]"
proof (induction k)
  case 0
  then show ?case by (auto simp: list_eq_iff_nth_eq)
next
  case (Suc k)
  then show ?case
    by (auto simp: list_eq_iff_nth_eq nth_list_update less_Suc_eq)
qed

lemma clamp_delta_le: "nat (clamp_delta m delta) \<le> m"
  by (auto simp: clamp_delta_def)

lemma stripe_range_bounds:
  assumes "delta \<le> m"
  shows "0 \<le> fst (stripe_range n m delta i)"
    and "snd (stripe_range n m delta i) = fst (stripe_range n m delta i) + int delta"
    and "snd (stripe_range n m delta i) \<le> int m"
  using assms by (auto simp: stripe_range_def Let_def)

lemma stripe_cost_row_eq:
  assumes "delta \<le> m"
  shows "stripe_cost_row mfcc1 mfcc2 norm2_1 norm2_2 delta i (stripe_range n m delta i) =
    map (\<lambda>k. cost_cell mfcc1 mfcc2 norm2_1 norm2_2 i
                (nat (fst (stripe_range n m delta i)) + k)) [0..<delta]"
proof -
  let ?r = "stripe_range n m delta i"
  have "nat (snd ?r) = nat (fst ?r) + delta"
    using stripe_range_bounds [OF assms, of n i] by (simp add: nat_add_distrib)
  then show ?thesis
    unfolding stripe_cost_row_def
    using fold_update_nth [of "replicate delta (Fin 0)" delta delta "nat (fst ?r)"]
    by simp
qed

lemma exact_cost_matrix_eq:
  assumes "length (tl m1) = length (tl m2)"
  shows "exact_compute_cost_matrix m1 m2 =
    Inr (map (\<lambda>i. map (\<lambda>j. cost_cell (tl m1) (tl m2) (norm2 (tl m1) (ncols m1))
                                (norm2 (tl m2) (ncols m2)) i j) [0..<ncols m2]) [0..<ncols m1])"
  using assms by (simp add: exact_compute_cost_matrix_def Let_def)

lemma stripe_cost_matrix_eq:
  assumes "length (tl m1) = length (tl m2)" "0 \<le> delta0"
  shows "stripe_compute_cost_matrix m1 m2 delta0 =
    Inr (map (\<lambda>i. map (\<lambda>k. cost_cell (tl m1) (tl m2) (norm2 (tl m1) (ncols m1))
                 (norm2 (tl m2) (ncols m2)) i
                 (nat (stripe_centers (ncols m1) (ncols m2)
                         (nat (clamp_delta (ncols m2) delta0)) ! i) + k))
               [0..<nat (clamp_delta (ncols m2) delta0)]) [0..<ncols m1],
         stripe_centers (ncols m1) (ncols m2) (nat (clamp_delta (ncols m2) delta0)))"
proof -
  have d0: "0 \<le> clamp_delta (ncols m2) delta0"
    using assms(2) by (simp add: clamp_delta_def)
  from stripe_cost_row_eq [OF clamp_delta_le] assms d0 show ?thesis
    by (simp add: stripe_compute_cost_matrix_def Let_def stripe_centers_def cong: map_cong)
qed

lemma norm2_nth: "i < L \<Longrightarrow> norm2 M L ! i = sqrt (sum_list (map (\<lambda>x. x ^ 2) (column M i)))"
  by (simp add: norm2_def)

lemma sum_squares_zero:
  "sum_list (map (\<lambda>x. x ^ 2) (u :: real list)) = 0 \<Longrightarrow> x \<in> set u \<Longrightarrow> x = 0"
proof -
  assume s: "sum_list (map (\<lambda>x. x ^ 2) u) = 0" and x: "x \<in> set u"
  have "\<forall>y\<in>set (map (\<lambda>x. x ^ 2) u). y = 0"
    using s by (subst sum_list_nonneg_eq_0_iff [symmetric]) auto
  with x show "x = 0" by auto
qed

lemma dot_zero_left: "(\<And>x. x \<in> set u \<Longrightarrow> x = 0) \<Longrightarrow> dot u v = 0"
  unfolding dot_def
  by (induction u arbitrary: v) (auto simp: zip_Cons1 split: list.splits)

lemma dot_zero_right: "(\<And>x. x \<in> set v \<Longrightarrow> x = 0) \<Longrightarrow> dot u v = 0"
  unfolding dot_def
  by (induction v arbitrary: u) (auto simp: zip_Cons split: list.splits)

lemma cost_cell_nan:
  assumes "i < n" "j < m"
    and "norm2 mfcc1 n ! i = 0 \<or> norm2 mfcc2 m ! j = 0"
  shows "cost_cell mfcc1 mfcc2 (norm2 mfcc1 n) (norm2 mfcc2 m) i j = NaN"
proof -
  have "dot (column mfcc1 i) (column mfcc2 j) = 0"
  proof (cases "norm2 mfcc1 n ! i = 0")
    case True
    with assms(1) have "sum_list (map (\<lambda>x. x ^ 2) (column mfcc1 i)) = 0"
      by (simp add: norm2_nth)
    then show ?thesis
      by (intro dot_zero_left) (rule sum_squares_zero)
  next
    case False
    with assms(2,3) have "sum_list (map (\<lambda>x. x ^ 2) (column mfcc2 j)) = 0"
      by (simp add: norm2_nth)
    then show ?thesis
      by (intro dot_zero_right) (rule sum_squares_zero)
  qed
  with assms(3) show ?thesis
    by (auto simp: cost_cell_def np_divide_def)
qed

section \<open>The aligner and a band width that is not positive\<close>

text \<open>An aligner for the examples: one real frame, three synthesized frames, a margin of zero.\<close>

definition aligner_zero_margin :: aligner where
  "aligner_zero_margin =
     \<lparr>real_wave_mfcc = Some \<lparr>middle_mfcc = Some [[0], [1]], head_length = 0\<rparr>,
      synt_wave_mfcc = Some \<lparr>middle_mfcc = Some [[0, 0, 0], [1, 1, 1]], head_length = 0\<rparr>,
      rconf = \<lparr>dtw_algorithm = STRIPE, dtw_margin = 0, mfcc_win_shift = 1 / 25, c_ext = False\<rparr>,
      computed_path = None\<rparr>"

text \<open>
  Claim C9, as stated, fails: with a margin of zero the derived band width is \<open>0\<close>, and
  \<open>_setup_dtw\<close> raises nothing; it hands out a stripe engine of width \<open>0\<close>.
\<close>

theorem setup_dtw_zero_delta_no_error:
  "derived_delta (rconf aligner_zero_margin) \<le> 0 \<and>
   setup_dtw False aligner_zero_margin = Inr (DTWStripe [[0], [1]] [[0, 0, 0], [1, 1, 1]] 0)"
  by (simp add: aligner_zero_margin_def setup_dtw_def derived_delta_def py_int_def
      middle_length_def ncols_def)

text \<open>
  Claim C9, amended: \<open>_setup_dtw\<close> has no check of the band width. When both MFCC
  matrices are present and the window shift is not zero, a band width that is not positive
  raises no error: the exact engine is set up when it is the configured algorithm, or when
  the synthesized wave has no more frames than the band width and the native code cannot
  run; otherwise the stripe engine is set up with that band width.
\<close>

theorem setup_dtw_nonpositive_delta:
  assumes "real_wave_mfcc a = Some rw" "middle_mfcc rw = Some m1"
    and "synt_wave_mfcc a = Some sw" "middle_mfcc sw = Some m2"
    and "mfcc_win_shift (rconf a) \<noteq> 0"
    and "derived_delta (rconf a) \<le> 0"
  shows "setup_dtw can_run_c_extension a =
     Inr (if dtw_algorithm (rconf a) = EXACT
            \<or> (int (ncols m2) \<le> derived_delta (rconf a)
                 \<and> \<not> (c_ext (rconf a) \<and> can_run_c_extension))
          then DTWExact m1 m2 else DTWStripe m1 m2 (derived_delta (rconf a)))"
  using assms by (auto simp: setup_dtw_def middle_length_def Let_def)

theorem setup_dtw_nonpositive_delta_witness:
  "setup_dtw False aligner_zero_margin =
     Inr (if dtw_algorithm (rconf aligner_zero_margin) = EXACT
            \<or> (int (ncols [[0, 0, 0], [1, 1, 1 :: real]]) \<le> derived_delta (rconf aligner_zero_margin)
                 \<and> \<not> (c_ext (rconf aligner_zero_margin) \<and> False))
          then DTWExact [[0], [1]] [[0, 0, 0], [1, 1, 1]]
          else DTWStripe [[0], [1]] [[0, 0, 0], [1, 1, 1]] (derived_delta (rconf aligner_zero_margin)))"
  by (rule setup_dtw_nonpositive_delta
        [of aligner_zero_margin "\<lparr>middle_mfcc = Some [[0], [1]], head_length = 0\<rparr>" "[[0], [1]]"
            "\<lparr>middle_mfcc = Some [[0, 0, 0], [1, 1, 1]], head_length = 0\<rparr>"
            "[[0, 0, 0], [1, 1, 1]]" False])
     (simp_all add: aligner_zero_margin_def derived_delta_def py_int_def)

section \<open>Columns of norm zero\<close>

text \<open>
  Claim C7, as stated, fails: for a real matrix whose only frame has norm zero, the one
  cell of either cost matrix is not-a-number, not \<open>1\<close>.
\<close>

theorem zero_norm_cell_not_one:
  "norm2 (tl [[0], [0]]) 1 ! 0 = 0 \<and>
   exact_compute_cost_matrix [[0], [0]] [[0], [1]] = Inr [[NaN]] \<and>
   stripe_compute_cost_matrix [[0], [0]] [[0], [1]] 1 = Inr ([[NaN]], [0])"
  by (simp add: exact_compute_cost_matrix_def stripe_compute_cost_matrix_def ncols_def norm2_def
      column_def cost_cell_def dot_def np_divide_def stripe_cost_row_def stripe_range_def
      clamp_delta_def stripe_centers_def)

text \<open>
  Claim C7, amended: neither construction has a case for a norm of zero. For matrices
  with the same number of coefficients, if column \<open>i\<close> of the first or column \<open>j\<close> of the
  second has norm zero, both constructions return without an error, and the cell of
  \<open>(i, j)\<close> is not-a-number (the quotient \<open>0/0\<close>): in the exact cost matrix, and in the
  stripe cost matrix when \<open>j\<close> lies in the band of row \<open>i\<close>.
\<close>

theorem zero_norm_cost_is_nan:
  assumes "length (tl m1) = length (tl m2)"
    and "i < ncols m1" "j < ncols m2"
    and "norm2 (tl m1) (ncols m1) ! i = 0 \<or> norm2 (tl m2) (ncols m2) ! j = 0"
    and "0 \<le> delta"
  shows "(\<exists>C. exact_compute_cost_matrix m1 m2 = Inr C \<and> C ! i ! j = NaN) \<and>
         (\<exists>C centers. stripe_compute_cost_matrix m1 m2 delta = Inr (C, centers) \<and>
            (centers ! i \<le> int j \<and> int j < centers ! i + clamp_delta (ncols m2) delta \<longrightarrow>
               C ! i ! nat (int j - centers ! i) = NaN))"
proof (intro conjI)
  show "\<exists>C. exact_compute_cost_matrix m1 m2 = Inr C \<and> C ! i ! j = NaN"
    using assms cost_cell_nan [of i "ncols m1" j "ncols m2" "tl m1" "tl m2"]
    by (simp add: exact_cost_matrix_eq)
next
  let ?d = "nat (clamp_delta (ncols m2) delta)"
  let ?cs = "stripe_centers (ncols m1) (ncols m2) ?d"
  have c0: "0 \<le> ?cs ! i"
    using assms(2) stripe_range_bounds(1) [OF clamp_delta_le] by (simp add: stripe_centers_def)
  have d0: "0 \<le> clamp_delta (ncols m2) delta"
    using assms(5) by (simp add: clamp_delta_def)
  have "?cs ! i \<le> int j \<Longrightarrow> int j < ?cs ! i + clamp_delta (ncols m2) delta \<Longrightarrow>
    cost_cell (tl m1) (tl m2) (norm2 (tl m1) (ncols m1)) (norm2 (tl m2) (ncols m2)) i
       (nat (?cs ! i) + nat (int j - ?cs ! i)) = NaN"
  proof -
    assume "?cs ! i \<le> int j"
    with c0 have "nat (?cs ! i) + nat (int j - ?cs ! i) = j" by simp
    with assms cost_cell_nan [of i "ncols m1" j "ncols m2" "tl m1" "tl m2"]
    show ?thesis by simp
  qed
  with assms(1,2,5) c0 d0
  show "\<exists>C centers. stripe_compute_cost_matrix m1 m2 delta = Inr (C, centers) \<and>
            (centers ! i \<le> int j \<and> int j < centers ! i + clamp_delta (ncols m2) delta \<longrightarrow>
               C ! i ! nat (int j - centers ! i) = NaN)"
    by (auto simp: stripe_cost_matrix_eq)
qed

theorem zero_norm_cost_is_nan_witness:
  "(\<exists>C. exact_compute_cost_matrix [[0], [0]] [[0], [1]] = Inr C \<and> C ! 0 ! 0 = NaN) \<and>
   (\<exists>C centers. stripe_compute_cost_matrix [[0], [0]] [[0], [1]] 1 = Inr (C, centers) \<and>
      centers ! 0 \<le> int 0 \<and> int 0 < centers ! 0 + clamp_delta (ncols [[0], [1 :: real]]) 1 \<and>
      C ! 0 ! nat (int 0 - centers ! 0) = NaN)"
proof -
  have h: "norm2 (tl [[0], [0]]) (ncols [[0], [0 :: real]]) ! 0 = 0
      \<or> norm2 (tl [[0], [1]]) (ncols [[0], [1 :: real]]) ! 0 = 0"
    by (simp add: norm2_def ncols_def column_def)
  have c: "stripe_compute_cost_matrix [[0], [0]] [[0], [1]] 1 = Inr (C, centers) \<Longrightarrow>
      centers ! 0 \<le> int 0 \<and> int 0 < centers ! 0 + clamp_delta (ncols [[0], [1 :: real]]) 1"
    for C centers
    by (auto simp: stripe_compute_cost_matrix_def ncols_def stripe_range_def
        clamp_delta_def stripe_centers_def Let_def)
  from zero_norm_cost_is_nan [of "[[0], [0]]" "[[0], [1]]" 0 0 1, OF _ _ _ h]
  have "(\<exists>C. exact_compute_cost_matrix [[0], [0]] [[0], [1]] = Inr C \<and> C ! 0 ! 0 = NaN) \<and>
         (\<exists>C centers. stripe_compute_cost_matrix [[0], [0]] [[0], [1]] 1 = Inr (C, centers) \<and>
            (centers ! 0 \<le> int 0 \<and> int 0 < centers ! 0 + clamp_delta (ncols [[0], [1 :: real]]) 1 \<longrightarrow>
               C ! 0 ! nat (int 0 - centers ! 0) = NaN))"
    by (simp add: ncols_def)
  with c show ?thesis by blast
qed

section \<open>The centers of the stripe\<close>

lemma stripe_range_fst_mono:
  assumes "i \<le> j" "0 < n"
  shows "fst (stripe_range n m delta i) \<le> fst (stripe_range n m delta j)"
proof -
  have "int m * int i \<le> int m * int j"
    using assms(1) by (simp add: mult_left_mono)
  then have "(int m * int i) div int n \<le> (int m * int j) div int n"
    using assms(2) by (simp add: zdiv_mono1)
  then show ?thesis
    by (auto simp: stripe_range_def Let_def)
qed

lemma stripe_range_fst_0: "delta \<le> m \<Longrightarrow> fst (stripe_range n m delta 0) = 0"
  by (auto simp: stripe_range_def Let_def)

lemma stripe_range_fst_le: "delta \<le> m \<Longrightarrow> fst (stripe_range n m delta i) \<le> int m - int delta"
  by (auto simp: stripe_range_def Let_def)

lemma stripe_range_fst_last:
  "delta \<le> m \<Longrightarrow> fst (stripe_range n m delta i) = int m - int delta \<longleftrightarrow>
     (int delta = int m \<or> int m \<le> (int m * int i) div int n - int delta div 2 + int delta)"
  by (auto simp: stripe_range_def Let_def)

lemma valid_pair_same_coeffs: "valid_pair m1 m2 \<Longrightarrow> length (tl m1) = length (tl m2)"
  by (simp add: valid_pair_def)

lemma valid_pair_frames: "valid_pair m1 m2 \<Longrightarrow> 1 \<le> ncols m1 \<and> 1 \<le> ncols m2"
  by (simp add: valid_pair_def wf_mfcc_def)

text \<open>
  Claim C5, as stated, fails: for one real frame, three synthesized frames and a band of
  width \<open>1\<close>, the only center is \<open>0\<close>, and \<open>m - delta\<close> is \<open>2\<close>.
\<close>

theorem stripe_last_center_not_at_end:
  "valid_pair [[0], [1]] [[0, 0, 0], [1, 1, 1]] \<and>
   stripe_compute_cost_matrix [[0], [1]] [[0, 0, 0], [1, 1, 1]] 1 = Inr ([[Fin 0]], [0]) \<and>
   [0 :: int] ! (ncols [[0], [1 :: real]] - 1)
     \<noteq> int (ncols [[0, 0, 0], [1, 1, 1 :: real]]) - clamp_delta (ncols [[0, 0, 0], [1, 1, 1 :: real]]) 1"
  by (simp add: valid_pair_def wf_mfcc_def stripe_compute_cost_matrix_def ncols_def norm2_def
      column_def cost_cell_def dot_def np_divide_def stripe_cost_row_def stripe_range_def
      clamp_delta_def stripe_centers_def)

text \<open>
  Claim C5, amended: for a valid pair and a configured band width of at least \<open>1\<close>, the
  cost-matrix construction of the stripe engine returns \<open>n\<close> centers; they are
  non-decreasing, the first is \<open>0\<close>, and each lies between \<open>0\<close> and \<open>m - delta\<close>,
  where \<open>delta\<close> is the clamped width. The last center is \<open>m - delta\<close> exactly when
  \<open>delta = m\<close> or \<open>m \<le> (m (n - 1)) div n - delta div 2 + delta\<close>.
\<close>

theorem stripe_centers_shape:
  assumes "valid_pair m1 m2" "1 \<le> delta0"
  shows "\<exists>C centers. stripe_compute_cost_matrix m1 m2 delta0 = Inr (C, centers) \<and>
     length centers = ncols m1 \<and>
     centers ! 0 = 0 \<and>
     (\<forall>i j. i \<le> j \<and> j < ncols m1 \<longrightarrow> centers ! i \<le> centers ! j) \<and>
     (\<forall>i<ncols m1. 0 \<le> centers ! i \<and> centers ! i \<le> int (ncols m2) - clamp_delta (ncols m2) delta0) \<and>
     (centers ! (ncols m1 - 1) = int (ncols m2) - clamp_delta (ncols m2) delta0 \<longleftrightarrow>
        clamp_delta (ncols m2) delta0 = int (ncols m2) \<or>
        int (ncols m2) \<le> (int (ncols m2) * int (ncols m1 - 1)) div int (ncols m1)
           - clamp_delta (ncols m2) delta0 div 2 + clamp_delta (ncols m2) delta0)"
proof -
  let ?n = "ncols m1" and ?m = "ncols m2"
  let ?d = "nat (clamp_delta ?m delta0)"
  let ?cs = "stripe_centers ?n ?m ?d"
  have n: "0 < ?n" using valid_pair_frames [OF assms(1)] by simp
  have d: "int ?d = clamp_delta ?m delta0"
    using assms(2) by (simp add: clamp_delta_def)
  have dm: "?d \<le> ?m" by (rule clamp_delta_le)
  have nth: "?cs ! i = fst (stripe_range ?n ?m ?d i)" if "i < ?n" for i
    using that by (simp add: stripe_centers_def)
  have 1: "length ?cs = ?n" by (simp add: stripe_centers_def)
  have 2: "?cs ! 0 = 0" using n dm by (simp add: nth stripe_range_fst_0)
  have 3: "\<forall>i j. i \<le> j \<and> j < ?n \<longrightarrow> ?cs ! i \<le> ?cs ! j"
    using n by (simp add: nth stripe_range_fst_mono)
  have 4: "\<forall>i<?n. 0 \<le> ?cs ! i \<and> ?cs ! i \<le> int ?m - clamp_delta ?m delta0"
  proof (intro allI impI)
    fix i assume "i < ?n"
    with stripe_range_bounds(1) [OF dm, of ?n i] stripe_range_fst_le [OF dm, of ?n i] d
    show "0 \<le> ?cs ! i \<and> ?cs ! i \<le> int ?m - clamp_delta ?m delta0"
      by (simp add: nth)
  qed
  have 5: "?cs ! (?n - 1) = int ?m - clamp_delta ?m delta0 \<longleftrightarrow>
        clamp_delta ?m delta0 = int ?m \<or>
        int ?m \<le> (int ?m * int (?n - 1)) div int ?n
           - clamp_delta ?m delta0 div 2 + clamp_delta ?m delta0"
    using n stripe_range_fst_last [OF dm, of ?n "?n - 1"] unfolding d by (simp add: nth)
  from assms have "stripe_compute_cost_matrix m1 m2 delta0 = Inr (map (\<lambda>i. map (\<lambda>k. cost_cell (tl m1) (tl m2) (norm2 (tl m1) (ncols m1))
                 (norm2 (tl m2) (ncols m2)) i
                 (nat (?cs ! i) + k)) [0..<?d]) [0..<ncols m1], ?cs)"
    by (intro stripe_cost_matrix_eq valid_pair_same_coeffs) simp_all
  with 1 2 3 4 5 show ?thesis by blast
qed

lemma valid_pair_two_frames: "valid_pair [[0, 0], [1, 1]] [[0, 0], [1, 1]]"
  by (simp add: valid_pair_def wf_mfcc_def ncols_def norm2_def column_def)

theorem stripe_centers_shape_witness:
  "\<exists>C centers. stripe_compute_cost_matrix [[0, 0], [1, 1]] [[0, 0], [1, 1]] 1 = Inr (C, centers) \<and>
     length centers = 2 \<and> centers ! 0 = 0 \<and> centers ! 0 \<le> centers ! 1 \<and> centers ! 1 = 1"
proof -
  from stripe_centers_shape [OF valid_pair_two_frames, of 1]
  obtain C centers where
    c: "stripe_compute_cost_matrix [[0, 0], [1, 1]] [[0, 0], [1, 1]] 1 = Inr (C, centers)"
    and l: "length centers = ncols [[0, 0], [1, 1 :: real]]"
    and z: "centers ! 0 = 0"
    and m: "\<forall>i j. i \<le> j \<and> j < ncols [[0, 0], [1, 1 :: real]] \<longrightarrow> centers ! i \<le> centers ! j"
    and e: "(centers ! (ncols [[0, 0], [1, 1 :: real]] - 1)
           = int (ncols [[0, 0], [1, 1 :: real]]) - clamp_delta (ncols [[0, 0], [1, 1 :: real]]) 1 \<longleftrightarrow>
        clamp_delta (ncols [[0, 0], [1, 1 :: real]]) 1 = int (ncols [[0, 0], [1, 1 :: real]]) \<or>
        int (ncols [[0, 0], [1, 1 :: real]])
          \<le> (int (ncols [[0, 0], [1, 1 :: real]]) * int (ncols [[0, 0], [1, 1 :: real]] - 1))
               div int (ncols [[0, 0], [1, 1 :: real]])
           - clamp_delta (ncols [[0, 0], [1, 1 :: real]]) 1 div 2
           + clamp_delta (ncols [[0, 0], [1, 1 :: real]]) 1)"
    by auto
  from l have "length centers = 2" by (simp add: ncols_def)
  moreover from m have "centers ! 0 \<le> centers ! 1" by (simp add: ncols_def)
  moreover from e have "centers ! 1 = 1" by (simp add: ncols_def clamp_delta_def)
  ultimately show ?thesis using c z by blast
qed

section \<open>The choice of the predecessor\<close>

text \<open>
  The spec's words for the choice: the index of the minimum of the candidate costs, the
  first such index on ties.
\<close>

definition first_min :: "fl list \<Rightarrow> nat \<Rightarrow> bool" where
  "first_min costs k =
     (k < length costs \<and> (\<forall>l<length costs. fle (costs ! k) (costs ! l))
        \<and> (\<forall>l<k. \<not> fle (costs ! l) (costs ! k)))"

lemma np_argmin3_first_min:
  assumes "\<not> is_nan c0" "\<not> is_nan c1" "\<not> is_nan c2"
  shows "first_min [c0, c1, c2] (np_argmin3 c0 c1 c2)"
  using assms
  by (cases c0; cases c1; cases c2)
     (auto simp: first_min_def np_argmin3_def fge_def All_less_Suc numeral_2_eq_2)

section \<open>The accumulated cost matrix of the exact engine\<close>

definition rect :: "nat \<Rightarrow> nat \<Rightarrow> 'a list list \<Rightarrow> bool" where
  "rect n m M = (length M = n \<and> (\<forall>i<n. length (M ! i) = m))"

lemma rect_put: "rect n m M \<Longrightarrow> rect n m (put M i j v)"
  by (cases "i < length M") (auto simp: rect_def put_def nth_list_update)

lemma put_nth:
  "rect n m M \<Longrightarrow> i < n \<Longrightarrow> j < m \<Longrightarrow> i' < n \<Longrightarrow> j' < m \<Longrightarrow>
   put M i j v ! i' ! j' = (if i' = i \<and> j' = j then v else M ! i' ! j')"
  by (auto simp: rect_def put_def nth_list_update)

lemma rect_eqI:
  assumes "rect n m M" "rect n m M'" "\<And>i j. i < n \<Longrightarrow> j < m \<Longrightarrow> M ! i ! j = M' ! i ! j"
  shows "M = M'"
proof (rule nth_equalityI)
  show "length M = length M'" using assms by (simp add: rect_def)
next
  fix i assume "i < length M"
  then have i: "i < n" using assms(1) by (simp add: rect_def)
  show "M ! i = M' ! i"
    using assms i by (intro nth_equalityI) (auto simp: rect_def)
qed

lemma fold_upt_inv:
  assumes "I a s" and "\<And>k s. a \<le> k \<Longrightarrow> k < b \<Longrightarrow> I k s \<Longrightarrow> I (Suc k) (f k s)"
  shows "a \<le> c \<Longrightarrow> c \<le> b \<Longrightarrow> I c (fold f [a..<c] s)"
proof (induction c)
  case 0
  then show ?case using assms(1) by simp
next
  case (Suc c)
  show ?case
  proof (cases "a = Suc c")
    case True
    then show ?thesis using assms(1) by simp
  next
    case False
    with Suc.prems have ac: "a \<le> c" "c < b" by auto
    with Suc.IH have "I c (fold f [a..<c] s)" by simp
    from assms(2) [OF ac this] ac show ?thesis by simp
  qed
qed

fun acm :: "fl list list \<Rightarrow> nat \<Rightarrow> nat \<Rightarrow> fl" where
  "acm C 0 0 = C ! 0 ! 0"
| "acm C 0 (Suc j) = fadd (C ! 0 ! Suc j) (acm C 0 j)"
| "acm C (Suc i) 0 = fadd (acm C i 0) (C ! Suc i ! 0)"
| "acm C (Suc i) (Suc j) =
     fadd (C ! Suc i ! Suc j) (pymin3 (acm C i (Suc j)) (acm C (Suc i) j) (acm C i j))"

definition cells_inv :: "nat \<Rightarrow> nat \<Rightarrow> fl list list \<Rightarrow> nat \<Rightarrow> nat \<Rightarrow> fl list list \<Rightarrow> bool" where
  "cells_inv n m C i k M =
     (rect n m M \<and>
      (\<forall>i'<n. \<forall>j<m. M ! i' ! j = (if i' < i \<or> (i' = i \<and> j < k) then acm C i' j else C ! i' ! j)))"

lemma cells_inv_rect: "cells_inv n m C i k M \<Longrightarrow> rect n m M"
  by (simp add: cells_inv_def)

lemma cells_inv_nth:
  "cells_inv n m C i k M \<Longrightarrow> i' < n \<Longrightarrow> j < m \<Longrightarrow>
   M ! i' ! j = (if i' < i \<or> (i' = i \<and> j < k) then acm C i' j else C ! i' ! j)"
  by (simp add: cells_inv_def)

lemma cells_inv_next_row: "cells_inv n m C i m M \<Longrightarrow> cells_inv n m C (Suc i) 0 M"
  by (auto simp: cells_inv_def less_Suc_eq)

lemma cells_inv_put:
  assumes "cells_inv n m C i k M" "i < n" "k < m"
  shows "cells_inv n m C i (Suc k) (put M i k (acm C i k))"
  using assms
  by (auto simp: cells_inv_def rect_put put_nth less_Suc_eq)

lemma first_row_cell_inv:
  assumes "cells_inv n m C 0 k M" "0 < n" "0 < k" "k < m"
  shows "cells_inv n m C 0 (Suc k) (first_row_cell (C ! 0) k M)"
proof -
  have p: "M ! 0 ! (k - 1) = acm C 0 (k - 1)"
    using cells_inv_nth [OF assms(1), of 0 "k - 1"] assms by simp
  have a: "fadd (C ! 0 ! k) (acm C 0 (k - 1)) = acm C 0 k"
    using assms(3) by (cases k) auto
  have "first_row_cell (C ! 0) k M = put M 0 k (acm C 0 k)"
    using p a by (simp add: first_row_cell_def)
  with cells_inv_put [OF assms(1,2,4)] show ?thesis by simp
qed

lemma acm_first_row_inv:
  assumes "rect n m C" "0 < n" "0 < m"
  shows "cells_inv n m C 0 m (acm_first_row m C)"
proof -
  have "cells_inv n m C 0 1 C"
    using assms by (auto simp: cells_inv_def)
  then have "cells_inv n m C 0 m (fold (first_row_cell (C ! 0)) [1..<m] C)"
    using assms(2,3)
    by (intro fold_upt_inv [where I = "cells_inv n m C 0" and b = m])
       (auto intro: first_row_cell_inv)
  then show ?thesis by (simp add: acm_first_row_def)
qed

lemma exact_cell_inv:
  assumes "cells_inv n m C i k M" "0 < i" "i < n" "0 < k" "k < m" "cur ! k = C ! i ! k"
  shows "cells_inv n m C i (Suc k) (exact_cell cur i k M)"
proof -
  obtain i0 k0 where ik: "i = Suc i0" "k = Suc k0"
    using assms(2,4) by (cases i; cases k) auto
  have "M ! (i - 1) ! k = acm C i0 (Suc k0)"
    using cells_inv_nth [OF assms(1), of "i - 1" k] assms ik by simp
  moreover have "M ! i ! (k - 1) = acm C (Suc i0) k0"
    using cells_inv_nth [OF assms(1), of i "k - 1"] assms ik by simp
  moreover have "M ! (i - 1) ! (k - 1) = acm C i0 k0"
    using cells_inv_nth [OF assms(1), of "i - 1" "k - 1"] assms ik by simp
  ultimately have "exact_cell cur i k M = put M i k (acm C i k)"
    using ik assms(6) by (simp add: exact_cell_def)
  with cells_inv_put [OF assms(1,3,5)] show ?thesis by simp
qed

lemma exact_row_inv:
  assumes "cells_inv n m C i 0 M" "0 < i" "i < n" "0 < m"
  shows "cells_inv n m C (Suc i) 0 (exact_row m i M)"
proof -
  obtain i0 where i: "i = Suc i0" using assms(2) by (cases i) auto
  have cur: "M ! i ! j = C ! i ! j" if "j < m" for j
    using cells_inv_nth [OF assms(1), of i j] assms that by simp
  have "M ! (i - 1) ! 0 = acm C i0 0"
    using cells_inv_nth [OF assms(1), of "i - 1" 0] assms i by simp
  then have "put M i 0 (fadd (M ! (i - 1) ! 0) (M ! i ! 0)) = put M i 0 (acm C i 0)"
    using i cur [of 0] assms(4) by simp
  with cells_inv_put [OF assms(1,3,4)]
  have "cells_inv n m C i 1 (put M i 0 (fadd (M ! (i - 1) ! 0) (M ! i ! 0)))" by simp
  then have "cells_inv n m C i m
      (fold (exact_cell (M ! i) i) [1..<m] (put M i 0 (fadd (M ! (i - 1) ! 0) (M ! i ! 0))))"
    using assms(2,3,4)
    by (intro fold_upt_inv [where I = "cells_inv n m C i" and b = m])
       (auto intro: exact_cell_inv simp: cur)
  then show ?thesis
    by (simp add: exact_row_def Let_def cells_inv_next_row)
qed

lemma exact_acm_in_place_inv:
  assumes "rect n m C" "0 < n" "0 < m"
  shows "\<exists>A. exact_acm_in_place C = Inr A \<and> cells_inv n m C n 0 A"
proof -
  have nm: "length C = n" "ncols C = m"
    using assms by (auto simp: rect_def ncols_def split: list.splits)
  have "cells_inv n m C 1 0 (acm_first_row m C)"
    using acm_first_row_inv [OF assms] by (simp add: cells_inv_next_row)
  then have "cells_inv n m C n 0 (fold (exact_row m) [1..<n] (acm_first_row m C))"
    using assms(2,3)
    by (intro fold_upt_inv [where I = "\<lambda>i. cells_inv n m C i 0" and b = n])
       (auto intro: exact_row_inv)
  then show ?thesis
    using assms(2,3) by (simp add: exact_acm_in_place_def nm Let_def)
qed

lemma exact_acm_in_place_nth:
  assumes "rect n m C" "0 < n" "0 < m"
  obtains A where "exact_acm_in_place C = Inr A" "rect n m A"
    "\<And>i j. i < n \<Longrightarrow> j < m \<Longrightarrow> A ! i ! j = acm C i j"
  using exact_acm_in_place_inv [OF assms] by (auto simp: cells_inv_def)

section \<open>Finite costs\<close>

fun fin_val :: "fl \<Rightarrow> real" where
  "fin_val (Fin x) = x"
| "fin_val _ = 0"

definition all_fin :: "nat \<Rightarrow> nat \<Rightarrow> fl list list \<Rightarrow> bool" where
  "all_fin n m C = (\<forall>i<n. \<forall>j<m. \<exists>x. C ! i ! j = Fin x)"

lemma all_finD: "all_fin n m C \<Longrightarrow> i < n \<Longrightarrow> j < m \<Longrightarrow> \<exists>x. C ! i ! j = Fin x"
  by (simp add: all_fin_def)

fun dtw_min :: "(nat \<Rightarrow> nat \<Rightarrow> real) \<Rightarrow> nat \<Rightarrow> nat \<Rightarrow> real" where
  "dtw_min c 0 0 = c 0 0"
| "dtw_min c 0 (Suc j) = c 0 (Suc j) + dtw_min c 0 j"
| "dtw_min c (Suc i) 0 = dtw_min c i 0 + c (Suc i) 0"
| "dtw_min c (Suc i) (Suc j) =
     c (Suc i) (Suc j) + min (min (dtw_min c i (Suc j)) (dtw_min c (Suc i) j)) (dtw_min c i j)"

lemma pymin3_Fin: "pymin3 (Fin a) (Fin b) (Fin c) = Fin (min (min a b) c)"
  by (auto simp: pymin3_def Let_def min_def)

lemma acm_Fin:
  "all_fin n m C \<Longrightarrow> i < n \<Longrightarrow> j < m \<Longrightarrow>
   acm C i j = Fin (dtw_min (\<lambda>i j. fin_val (C ! i ! j)) i j)"
proof (induction C i j rule: acm.induct)
  case (1 C)
  with all_finD [of n m C 0 0] obtain x where "C ! 0 ! 0 = Fin x" by auto
  then show ?case by simp
next
  case (2 C j)
  with all_finD [of n m C 0 "Suc j"] obtain x where "C ! 0 ! Suc j = Fin x" by auto
  with 2 show ?case by simp
next
  case (3 C i)
  with all_finD [of n m C "Suc i" 0] obtain x where "C ! Suc i ! 0 = Fin x" by auto
  with 3 show ?case by simp
next
  case (4 C i j)
  with all_finD [of n m C "Suc i" "Suc j"] obtain x where "C ! Suc i ! Suc j = Fin x" by auto
  with 4 show ?case by (simp add: pymin3_Fin)
qed

lemma cost_cell_Fin:
  assumes "norm2_1 ! i \<noteq> 0" "norm2_2 ! j \<noteq> 0"
  shows "\<exists>x. cost_cell mfcc1 mfcc2 norm2_1 norm2_2 i j = Fin x"
  using assms by (simp add: cost_cell_def np_divide_def)

lemma valid_pair_norms:
  assumes "valid_pair m1 m2"
  shows "i < ncols m1 \<Longrightarrow> norm2 (tl m1) (ncols m1) ! i \<noteq> 0"
    and "j < ncols m2 \<Longrightarrow> norm2 (tl m2) (ncols m2) ! j \<noteq> 0"
  using assms by (auto simp: valid_pair_def list_all_length norm2_def)

lemma exact_cost_matrix_valid:
  assumes "valid_pair m1 m2"
  obtains C where "exact_compute_cost_matrix m1 m2 = Inr C"
    "rect (ncols m1) (ncols m2) C" "all_fin (ncols m1) (ncols m2) C"
proof -
  let ?C = "map (\<lambda>i. map (\<lambda>j. cost_cell (tl m1) (tl m2) (norm2 (tl m1) (ncols m1))
                                (norm2 (tl m2) (ncols m2)) i j) [0..<ncols m2]) [0..<ncols m1]"
  have 1: "exact_compute_cost_matrix m1 m2 = Inr ?C"
    using assms by (intro exact_cost_matrix_eq valid_pair_same_coeffs)
  have 2: "rect (ncols m1) (ncols m2) ?C" by (simp add: rect_def)
  have 3: "all_fin (ncols m1) (ncols m2) ?C"
    unfolding all_fin_def
  proof (intro allI impI)
    fix i j assume "i < ncols m1" "j < ncols m2"
    with valid_pair_norms [OF assms] cost_cell_Fin
    obtain x where "cost_cell (tl m1) (tl m2) (norm2 (tl m1) (ncols m1))
                                (norm2 (tl m2) (ncols m2)) i j = Fin x" by blast
    with \<open>i < ncols m1\<close> \<open>j < ncols m2\<close> show "\<exists>x. ?C ! i ! j = Fin x" by simp
  qed
  from that 1 2 3 show thesis by blast
qed

section \<open>Monotone paths\<close>

fun valid_step :: "nat \<times> int \<Rightarrow> nat \<times> int \<Rightarrow> bool" where
  "valid_step (i, j) (i', j') = ((int i' - int i, j' - j) \<in> {(1, 0), (0, 1), (1, 1)})"

fun steps_ok :: "path \<Rightarrow> bool" where
  "steps_ok [] = True"
| "steps_ok [p] = True"
| "steps_ok (p # q # r) = (valid_step p q \<and> steps_ok (q # r))"

definition monotone_path :: "nat \<Rightarrow> nat \<Rightarrow> path \<Rightarrow> bool" where
  "monotone_path n m Q =
     (Q \<noteq> [] \<and> hd Q = (0, 0) \<and> last Q = (n - 1, int m - 1) \<and> steps_ok Q)"

definition path_cost :: "fl list list \<Rightarrow> path \<Rightarrow> fl" where
  "path_cost C P = fsum (map (\<lambda>(i, j). C ! i ! nat j) P)"

text \<open>descending chains: the order in which the loops append\<close>

fun desc :: "nat \<times> int \<Rightarrow> path \<Rightarrow> bool" where
  "desc p [] = True"
| "desc p (q # r) = (valid_step q p \<and> desc q r)"

lemma steps_ok_snoc:
  "steps_ok xs \<Longrightarrow> xs \<noteq> [] \<Longrightarrow> valid_step (last xs) p \<Longrightarrow> steps_ok (xs @ [p])"
  by (induction xs rule: steps_ok.induct) auto

lemma steps_ok_rev: "desc p T \<Longrightarrow> steps_ok (rev (p # T))"
proof (induction T arbitrary: p)
  case Nil
  then show ?case by simp
next
  case (Cons q r)
  then have "steps_ok (rev (q # r))" by simp
  moreover have "last (rev (q # r)) = q" by simp
  ultimately have "steps_ok (rev (q # r) @ [p])"
    using Cons.prems by (intro steps_ok_snoc) auto
  then show ?case by simp
qed

lemma steps_ok_nth:
  "steps_ok P \<Longrightarrow> Suc t < length P \<Longrightarrow> valid_step (P ! t) (P ! Suc t)"
proof (induction P arbitrary: t rule: steps_ok.induct)
  case (3 p q r)
  then show ?case by (cases t) auto
qed auto

lemma steps_ok_bounds:
  "steps_ok P \<Longrightarrow> P \<noteq> [] \<Longrightarrow>
   int (fst (last P)) - int (fst (hd P)) \<le> int (length P) - 1 \<and>
   snd (last P) - snd (hd P) \<le> int (length P) - 1 \<and>
   int (length P) - 1 \<le> (int (fst (last P)) - int (fst (hd P))) + (snd (last P) - snd (hd P))"
proof (induction P rule: steps_ok.induct)
  case (3 p q r)
  then show ?case by (cases p; cases q) auto
qed auto

lemma steps_ok_mono:
  "steps_ok P \<Longrightarrow> x \<in> set P \<Longrightarrow> fst (hd P) \<le> fst x \<and> snd (hd P) \<le> snd x"
proof (induction P rule: steps_ok.induct)
  case (3 p q r)
  then show ?case by (cases p; cases q) fastforce
qed auto

lemma steps_ok_mono_last:
  "steps_ok P \<Longrightarrow> x \<in> set P \<Longrightarrow> fst x \<le> fst (last P) \<and> snd x \<le> snd (last P)"
proof (induction P rule: steps_ok.induct)
  case (3 p q r)
  then show ?case
    using steps_ok_mono [of "q # r" "last (q # r)"] by (cases p; cases q) fastforce
qed auto

lemma steps_ok_sorted:
  "steps_ok P \<Longrightarrow> sorted (map fst P) \<and> sorted (map snd P)"
proof (induction P rule: steps_ok.induct)
  case (3 p q r)
  then show ?case
    using steps_ok_mono [of "q # r"] by (cases p; cases q) fastforce
qed auto

section \<open>The path of the exact engine\<close>

function exact_trace :: "fl list list \<Rightarrow> nat \<Rightarrow> nat \<Rightarrow> path" where
  "exact_trace acc_matrix i j =
     (if 0 < i \<or> 0 < j then
        if i = 0 then (0, int (j - 1)) # exact_trace acc_matrix 0 (j - 1)
        else if j = 0 then (i - 1, 0) # exact_trace acc_matrix (i - 1) 0
        else
          (let min_move = exact_move acc_matrix i j
           in (fst min_move, int (snd min_move)) # exact_trace acc_matrix (fst min_move) (snd min_move))
      else [])"
  by pat_completeness auto

termination exact_trace
proof (relation "measure (\<lambda>(acc_matrix, i, j). i + j)", goal_cases)
  case (4 acc_matrix i j x)
  with exact_move_cases [of acc_matrix i j] show ?case by auto
qed auto

declare exact_trace.simps [simp del] exact_loop.simps [simp del]

lemma exact_loop_trace: "exact_loop acc i j path = path @ exact_trace acc i j"
proof (induction acc i j path rule: exact_loop.induct)
  case (1 acc i j path)
  show ?case
    using 1 by (subst exact_loop.simps, subst exact_trace.simps) (simp add: Let_def)
qed

lemma exact_move_interior:
  assumes "0 < i" "0 < j"
  shows "valid_step (fst (exact_move acc i j), int (snd (exact_move acc i j))) (i, int j)"
  using exact_move_cases [of acc i j] assms by auto

lemma exact_trace_desc: "desc (i, int j) (exact_trace acc i j)"
proof (induction acc i j rule: exact_trace.induct)
  case (1 acc i j)
  show ?case
    using 1 exact_move_interior [of i j acc]
    by (subst exact_trace.simps) (auto simp: Let_def)
qed

lemma exact_trace_last: "last ((i, int j) # exact_trace acc i j) = (0, 0)"
proof (induction acc i j rule: exact_trace.induct)
  case (1 acc i j)
  show ?case
    using 1 by (subst exact_trace.simps) (auto simp: Let_def)
qed

definition real_cost :: "(nat \<Rightarrow> nat \<Rightarrow> real) \<Rightarrow> path \<Rightarrow> real" where
  "real_cost c P = sum_list (map (\<lambda>(i, j). c i (nat j)) P)"

lemma np_argmin3_Fin:
  "[a, b, c] ! np_argmin3 (Fin a) (Fin b) (Fin c) = min (min a b) c"
  by (auto simp: np_argmin3_def fge_def min_def)

lemma real_cost_Cons: "real_cost c ((i, j) # P) = c i (nat j) + real_cost c P"
  by (simp add: real_cost_def)

lemma real_cost_Nil: "real_cost c [] = 0"
  by (simp add: real_cost_def)

lemma real_cost_append: "real_cost c (P @ Q) = real_cost c P + real_cost c Q"
  by (simp add: real_cost_def)

lemma exact_move_dtw_min:
  assumes "\<forall>i<n. \<forall>j<m. A ! i ! j = Fin (dtw_min c i j)" "Suc i < n" "Suc j < m"
  shows "fst (exact_move A (Suc i) (Suc j)) \<le> Suc i \<and> snd (exact_move A (Suc i) (Suc j)) \<le> Suc j \<and>
    dtw_min c (fst (exact_move A (Suc i) (Suc j))) (snd (exact_move A (Suc i) (Suc j)))
      = min (min (dtw_min c i (Suc j)) (dtw_min c (Suc i) j)) (dtw_min c i j)"
proof -
  let ?a = "dtw_min c i (Suc j)" and ?b = "dtw_min c (Suc i) j" and ?c = "dtw_min c i j"
  let ?k = "np_argmin3 (Fin ?a) (Fin ?b) (Fin ?c)"
  have "A ! i ! Suc j = Fin ?a" "A ! Suc i ! j = Fin ?b" "A ! i ! j = Fin ?c"
    using assms by simp_all
  then have mv: "exact_move A (Suc i) (Suc j) = [(i, Suc j), (Suc i, j), (i, j)] ! ?k"
    by (simp add: exact_move_def)
  have v: "[?a, ?b, ?c] ! ?k = min (min ?a ?b) ?c"
    by (rule np_argmin3_Fin)
  from np_argmin3_less [of "Fin ?a" "Fin ?b" "Fin ?c"]
  consider "?k = 0" | "?k = 1" | "?k = 2"
    by arith
  then show ?thesis
    using mv v by cases simp_all
qed

lemma exact_trace_cost:
  "\<forall>i<n. \<forall>j<m. A ! i ! j = Fin (dtw_min c i j) \<Longrightarrow> i < n \<Longrightarrow> j < m \<Longrightarrow>
   real_cost c (exact_trace A i j) = dtw_min c i j - c i j"
proof (induction A i j rule: exact_trace.induct)
  case (1 A i j)
  show ?case
  proof (cases i)
    case 0
    note i = this
    show ?thesis
    proof (cases j)
      case 0
      with i show ?thesis by (subst exact_trace.simps) (simp add: real_cost_Nil)
    next
      case (Suc j0)
      with i 1 have "real_cost c (exact_trace A 0 j0) = dtw_min c 0 j0 - c 0 j0" by simp
      with i Suc show ?thesis
        by (subst exact_trace.simps) (simp add: real_cost_Cons)
    qed
  next
    case (Suc i0)
    note i = this
    show ?thesis
    proof (cases j)
      case 0
      with i 1 have "real_cost c (exact_trace A i0 0) = dtw_min c i0 0 - c i0 0" by simp
      with i 0 show ?thesis
        by (subst exact_trace.simps) (simp add: real_cost_Cons)
    next
      case (Suc j0)
      let ?mv = "exact_move A (Suc i0) (Suc j0)"
      from exact_move_dtw_min [OF 1(4), of i0 j0] 1(5,6) i Suc
      have mv: "fst ?mv \<le> Suc i0" "snd ?mv \<le> Suc j0"
        "dtw_min c (fst ?mv) (snd ?mv)
           = min (min (dtw_min c i0 (Suc j0)) (dtw_min c (Suc i0) j0)) (dtw_min c i0 j0)"
        by auto
      from 1(3) [of ?mv] 1(4,5,6) i Suc mv
      have "real_cost c (exact_trace A (fst ?mv) (snd ?mv))
           = dtw_min c (fst ?mv) (snd ?mv) - c (fst ?mv) (snd ?mv)"
        by simp
      with mv(3) i Suc show ?thesis
        by (subst exact_trace.simps) (simp add: real_cost_Cons Let_def)
    qed
  qed
qed

lemma steps_ok_snocD:
  "steps_ok (xs @ [p]) \<Longrightarrow> xs \<noteq> [] \<Longrightarrow> steps_ok xs \<and> valid_step (last xs) p"
  by (induction xs rule: steps_ok.induct) auto

lemma dtw_min_step:
  assumes "valid_step (i', int j') (i, int j)"
  shows "dtw_min c i j \<le> c i j + dtw_min c i' j'"
proof -
  from assms consider "i = Suc i'" "j = j'" | "i = i'" "j = Suc j'" | "i = Suc i'" "j = Suc j'"
    by auto
  then show ?thesis
  proof cases
    case 1
    then show ?thesis by (cases j) auto
  next
    case 2
    then show ?thesis by (cases i) auto
  next
    case 3
    then show ?thesis by auto
  qed
qed

lemma dtw_min_optimal:
  "steps_ok Q \<Longrightarrow> Q \<noteq> [] \<Longrightarrow> hd Q = (0, 0) \<Longrightarrow> last Q = (i, int j) \<Longrightarrow>
   dtw_min c i j \<le> real_cost c Q"
proof (induction Q arbitrary: i j rule: rev_induct)
  case Nil
  then show ?case by simp
next
  case (snoc x Q)
  then have x: "x = (i, int j)" by simp
  show ?case
  proof (cases "Q = []")
    case True
    with snoc.prems x show ?thesis by (simp add: real_cost_def)
  next
    case False
    from steps_ok_snocD [OF snoc.prems(1) False]
    have s: "steps_ok Q" and v: "valid_step (last Q) x" by auto
    have h: "hd Q = (0, 0)" using snoc.prems(3) False by simp
    obtain i' j' where l: "last Q = (i', j')" by (cases "last Q")
    from steps_ok_mono [OF s, of "last Q"] False h l last_in_set [OF False]
    have "0 \<le> j'" by simp
    then have l': "last Q = (i', int (nat j'))" using l by simp
    from snoc.IH [OF s False h l']
    have "dtw_min c i' (nat j') \<le> real_cost c Q" .
    moreover from v l' x have "dtw_min c i j \<le> c i j + dtw_min c i' (nat j')"
      by (intro dtw_min_step) simp
    ultimately show ?thesis
      using x by (simp add: real_cost_append real_cost_Cons real_cost_Nil)
  qed
qed

section \<open>The terminal cost of the exact engine\<close>

lemma foldl_fadd_Fin: "foldl fadd (Fin a) (map Fin xs) = Fin (a + sum_list xs)"
  by (induction xs arbitrary: a) (auto simp: add.assoc)

lemma fsum_Fin: "fsum (map Fin xs) = Fin (sum_list xs)"
  by (simp add: fsum_def foldl_fadd_Fin)

definition in_range :: "nat \<Rightarrow> nat \<Rightarrow> path \<Rightarrow> bool" where
  "in_range n m P = (\<forall>(i, j)\<in>set P. i < n \<and> 0 \<le> j \<and> j < int m)"

lemma path_cost_Fin:
  assumes "all_fin n m C" "in_range n m P"
  shows "path_cost C P = Fin (real_cost (\<lambda>i j. fin_val (C ! i ! j)) P)"
proof -
  have "map (\<lambda>(i, j). C ! i ! nat j) P = map Fin (map (\<lambda>(i, j). fin_val (C ! i ! nat j)) P)"
    unfolding map_map
  proof (rule map_cong [OF refl])
    fix x assume "x \<in> set P"
    with assms(2) obtain i j where x: "x = (i, j)" "i < n" "0 \<le> j" "j < int m"
      by (auto simp: in_range_def)
    then have "nat j < m" by simp
    with all_finD [OF assms(1), of i "nat j"] x obtain v where "C ! i ! nat j = Fin v" by auto
    with x show "(case x of (i, j) \<Rightarrow> C ! i ! nat j) = (Fin \<circ> (\<lambda>(i, j). fin_val (C ! i ! nat j))) x"
      by simp
  qed
  then have "path_cost C P = fsum (map Fin (map (\<lambda>(i, j). fin_val (C ! i ! nat j)) P))"
    by (simp only: path_cost_def)
  also have "\<dots> = Fin (sum_list (map (\<lambda>(i, j). fin_val (C ! i ! nat j)) P))"
    by (rule fsum_Fin)
  finally show ?thesis
    by (simp only: real_cost_def)
qed

lemma monotone_path_in_range:
  assumes "monotone_path n m Q" "0 < n" "0 < m"
  shows "in_range n m Q"
  unfolding in_range_def
proof (clarify)
  fix i j assume x: "(i, j) \<in> set Q"
  from assms(1) have s: "steps_ok Q" and h: "hd Q = (0, 0)" and l: "last Q = (n - 1, int m - 1)"
    by (auto simp: monotone_path_def)
  from steps_ok_mono [OF s x] steps_ok_mono_last [OF s x] h l assms(2,3)
  show "i < n \<and> 0 \<le> j \<and> j < int m" by auto
qed

lemma rect_ncols: "rect n m M \<Longrightarrow> 0 < n \<Longrightarrow> ncols M = m"
  by (cases M) (auto simp: rect_def ncols_def)

text \<open>The exact engine on a valid pair, in one statement.\<close>

lemma exact_engine_valid:
  assumes "valid_pair m1 m2"
  obtains C A where
    "exact_compute_cost_matrix m1 m2 = Inr C"
    "rect (ncols m1) (ncols m2) C" "all_fin (ncols m1) (ncols m2) C"
    "exact_compute_accumulated_cost_matrix m1 m2 = Inr A"
    "rect (ncols m1) (ncols m2) A"
    "\<forall>i<ncols m1. \<forall>j<ncols m2. A ! i ! j = Fin (dtw_min (\<lambda>i j. fin_val (C ! i ! j)) i j)"
    "exact_compute_path m1 m2 =
       Inr (rev ((ncols m1 - 1, int (ncols m2 - 1)) # exact_trace A (ncols m1 - 1) (ncols m2 - 1)))"
proof -
  let ?n = "ncols m1" and ?m = "ncols m2"
  have nm: "0 < ?n" "0 < ?m" using valid_pair_frames [OF assms] by auto
  from exact_cost_matrix_valid [OF assms] obtain C where
    C: "exact_compute_cost_matrix m1 m2 = Inr C" "rect ?n ?m C" "all_fin ?n ?m C" by blast
  from exact_acm_in_place_nth [OF C(2) nm] obtain A where
    A: "exact_acm_in_place C = Inr A" "rect ?n ?m A"
       "\<And>i j. i < ?n \<Longrightarrow> j < ?m \<Longrightarrow> A ! i ! j = acm C i j" by blast
  have 1: "exact_compute_accumulated_cost_matrix m1 m2 = Inr A"
    using C(1) A(1) by (simp add: exact_compute_accumulated_cost_matrix_def)
  have 2: "\<forall>i<?n. \<forall>j<?m. A ! i ! j = Fin (dtw_min (\<lambda>i j. fin_val (C ! i ! j)) i j)"
    using A(3) acm_Fin [OF C(3)] by simp
  have "length A = ?n" "ncols A = ?m"
    using A(2) nm rect_ncols [OF A(2)] by (auto simp: rect_def)
  then have 3: "exact_compute_path m1 m2 =
       Inr (rev ((?n - 1, int (?m - 1)) # exact_trace A (?n - 1) (?m - 1)))"
    using 1 nm
    by (simp add: exact_compute_path_def exact_compute_best_path_def exact_loop_trace Let_def)
  from that [OF C 1 A(2) 2 3] show thesis .
qed

lemma exact_path_shape:
  "monotone_path (Suc i) (Suc j) (rev ((i, int j) # exact_trace A i j))"
proof -
  let ?L = "(i, int j) # exact_trace A i j"
  have "hd (rev ?L) = (0, 0)"
    using exact_trace_last [of i j A] by (simp only: hd_rev)
  moreover have "last (rev ?L) = (i, int j)"
    by (simp only: last_rev list.sel)
  moreover have "steps_ok (rev ?L)"
    by (rule steps_ok_rev [OF exact_trace_desc])
  ultimately show ?thesis
    by (simp add: monotone_path_def)
qed

lemma real_cost_rev: "real_cost c (rev P) = real_cost c P"
  by (simp add: real_cost_def rev_map [symmetric])

lemma exact_path_cost:
  assumes "\<forall>i<n. \<forall>j<m. A ! i ! j = Fin (dtw_min c i j)" "i < n" "j < m"
  shows "real_cost c (rev ((i, int j) # exact_trace A i j)) = dtw_min c i j"
  unfolding real_cost_rev real_cost_Cons exact_trace_cost [OF assms] by simp

text \<open>
  Claim C1: for a valid pair of MFCC matrices the exact engine returns a cost matrix
  \<open>C\<close>, an accumulated matrix \<open>A\<close> and a path \<open>P\<close>; the terminal value
  \<open>A[n-1][m-1]\<close> is the sum of the cells of \<open>C\<close> along \<open>P\<close>, and it is at most
  the sum of the cells of \<open>C\<close> along any path that starts at \<open>(0, 0)\<close>, ends at
  \<open>(n-1, m-1)\<close> and moves by the steps \<open>(1,0)\<close>, \<open>(0,1)\<close>, \<open>(1,1)\<close>.
\<close>

theorem exact_terminal_cost_optimal:
  assumes "valid_pair m1 m2"
  shows "\<exists>C A P. exact_compute_cost_matrix m1 m2 = Inr C \<and>
     exact_compute_accumulated_cost_matrix m1 m2 = Inr A \<and>
     exact_compute_path m1 m2 = Inr P \<and>
     A ! (ncols m1 - 1) ! (ncols m2 - 1) = path_cost C P \<and>
     (\<forall>Q. monotone_path (ncols m1) (ncols m2) Q \<longrightarrow>
        fle (A ! (ncols m1 - 1) ! (ncols m2 - 1)) (path_cost C Q))"
proof (rule exact_engine_valid [OF assms])
  fix C A
  define n where "n = ncols m1"
  define m where "m = ncols m2"
  define c where "c = (\<lambda>i j. fin_val (C ! i ! j))"
  define P where "P = rev ((n - 1, int (m - 1)) # exact_trace A (n - 1) (m - 1))"
  define d where "d = dtw_min c (n - 1) (m - 1)"
  assume C1: "exact_compute_cost_matrix m1 m2 = Inr C"
    and "all_fin (ncols m1) (ncols m2) C"
    and A1: "exact_compute_accumulated_cost_matrix m1 m2 = Inr A"
    and "\<forall>i<ncols m1. \<forall>j<ncols m2. A ! i ! j = Fin (dtw_min (\<lambda>i j. fin_val (C ! i ! j)) i j)"
    and "exact_compute_path m1 m2 =
       Inr (rev ((ncols m1 - 1, int (ncols m2 - 1)) # exact_trace A (ncols m1 - 1) (ncols m2 - 1)))"
  then have C2: "all_fin n m C"
    and A2: "\<forall>i<n. \<forall>j<m. A ! i ! j = Fin (dtw_min c i j)"
    and P1: "exact_compute_path m1 m2 = Inr P"
    by (simp_all only: n_def m_def c_def P_def)
  have nm: "0 < n" "0 < m" using valid_pair_frames [OF assms] by (auto simp: n_def m_def)
  have tm: "A ! (n - 1) ! (m - 1) = Fin d"
    using A2 nm by (simp add: d_def)
  have "monotone_path (Suc (n - 1)) (Suc (m - 1)) P"
    unfolding P_def by (rule exact_path_shape)
  then have mp: "monotone_path n m P"
    using nm by simp
  have rc: "real_cost c P = d"
    unfolding P_def d_def
    using nm by (intro exact_path_cost [OF A2]) simp_all
  have pc: "path_cost C P = Fin (real_cost c P)"
    unfolding c_def by (rule path_cost_Fin [OF C2 monotone_path_in_range [OF mp nm]])
  have 1: "A ! (n - 1) ! (m - 1) = path_cost C P"
    by (simp only: tm pc rc)
  have 2: "fle (A ! (n - 1) ! (m - 1)) (path_cost C Q)" if "monotone_path n m Q" for Q
  proof -
    from that nm have "last Q = (n - 1, int (m - 1))"
      by (simp add: monotone_path_def of_nat_diff)
    with that have "d \<le> real_cost c Q"
      unfolding d_def by (intro dtw_min_optimal) (simp_all add: monotone_path_def)
    moreover have "path_cost C Q = Fin (real_cost c Q)"
      unfolding c_def by (rule path_cost_Fin [OF C2 monotone_path_in_range [OF that nm]])
    ultimately show ?thesis
      using tm by auto
  qed
  have 3: "\<forall>Q. monotone_path n m Q \<longrightarrow> fle (A ! (n - 1) ! (m - 1)) (path_cost C Q)"
    using 2 by blast
  have "exact_compute_cost_matrix m1 m2 = Inr C \<and>
     exact_compute_accumulated_cost_matrix m1 m2 = Inr A \<and>
     exact_compute_path m1 m2 = Inr P \<and>
     A ! (n - 1) ! (m - 1) = path_cost C P \<and>
     (\<forall>Q. monotone_path n m Q \<longrightarrow> fle (A ! (n - 1) ! (m - 1)) (path_cost C Q))"
    using C1 A1 P1 1 3 by (intro conjI)
  then show ?thesis
    unfolding n_def m_def by (intro exI)
qed

theorem exact_terminal_cost_optimal_witness:
  "\<exists>C A P. exact_compute_cost_matrix [[0, 0], [1, 1]] [[0, 0], [1, 1]] = Inr C \<and>
     exact_compute_accumulated_cost_matrix [[0, 0], [1, 1]] [[0, 0], [1, 1]] = Inr A \<and>
     exact_compute_path [[0, 0], [1, 1]] [[0, 0], [1, 1]] = Inr P \<and>
     A ! (ncols [[0, 0], [1, 1 :: real]] - 1) ! (ncols [[0, 0], [1, 1 :: real]] - 1) = path_cost C P \<and>
     (\<forall>Q. monotone_path (ncols [[0, 0], [1, 1 :: real]]) (ncols [[0, 0], [1, 1 :: real]]) Q \<longrightarrow>
        fle (A ! (ncols [[0, 0], [1, 1 :: real]] - 1) ! (ncols [[0, 0], [1, 1 :: real]] - 1))
          (path_cost C Q))"
  by (rule exact_terminal_cost_optimal [OF valid_pair_two_frames])

section \<open>The predecessor on the path of the exact engine\<close>

definition exact_pred :: "fl list list \<Rightarrow> nat \<Rightarrow> nat \<Rightarrow> nat \<times> int" where
  "exact_pred acc a b =
     (if a = 0 then (0, int (b - 1)) else if b = 0 then (a - 1, 0)
      else (fst (exact_move acc a b), int (snd (exact_move acc a b))))"

lemma exact_trace_unfold:
  "0 < i \<or> 0 < j \<Longrightarrow>
   exact_trace acc i j = exact_pred acc i j #
     exact_trace acc (fst (exact_pred acc i j)) (nat (snd (exact_pred acc i j)))"
  by (subst exact_trace.simps) (simp add: exact_pred_def Let_def)

lemma exact_trace_Nil: "\<not> (0 < i \<or> 0 < j) \<Longrightarrow> exact_trace acc i j = []"
  by (subst exact_trace.simps) simp

lemma exact_pred_le:
  "fst (exact_pred acc i j) \<le> i \<and> nat (snd (exact_pred acc i j)) \<le> j \<and>
   snd (exact_pred acc i j) = int (nat (snd (exact_pred acc i j)))"
  using exact_move_cases [of acc i j] by (auto simp: exact_pred_def)

lemma exact_trace_succ:
  "Suc s < length ((i0, int j0) # exact_trace acc i0 j0) \<Longrightarrow>
   \<exists>a b. ((i0, int j0) # exact_trace acc i0 j0) ! s = (a, int b) \<and> a \<le> i0 \<and> b \<le> j0 \<and>
     ((i0, int j0) # exact_trace acc i0 j0) ! Suc s = exact_pred acc a b"
proof (induction acc i0 j0 arbitrary: s rule: exact_trace.induct)
  case (1 acc i j)
  show ?case
  proof (cases "0 < i \<or> 0 < j")
    case False
    with 1(4) show ?thesis by (simp add: exact_trace_Nil)
  next
    case True
    let ?p = "exact_pred acc i j"
    let ?i = "fst ?p" and ?j = "nat (snd ?p)"
    note u = exact_trace_unfold [OF True, of acc]
    note le = exact_pred_le [of acc i j]
    show ?thesis
    proof (cases s)
      case 0
      then show ?thesis using u by auto
    next
      case (Suc s')
      have p: "?p = (?i, int ?j)" using le by (simp add: prod_eq_iff)
      have len: "Suc s' < length ((?i, int ?j) # exact_trace acc ?i ?j)"
        using 1(4) Suc u by simp
      have "\<exists>a b. ((?i, int ?j) # exact_trace acc ?i ?j) ! s' = (a, int b) \<and> a \<le> ?i \<and> b \<le> ?j \<and>
          ((?i, int ?j) # exact_trace acc ?i ?j) ! Suc s' = exact_pred acc a b"
      proof (cases "i = 0")
        case True
        with \<open>0 < i \<or> 0 < j\<close> have e: "?i = 0" "?j = j - 1"
          by (simp_all add: exact_pred_def)
        from 1(1) [OF \<open>0 < i \<or> 0 < j\<close> True, of s'] len show ?thesis
          unfolding e by simp
      next
        case False
        note i = this
        show ?thesis
        proof (cases "j = 0")
          case True
          with i have e: "?i = i - 1" "?j = 0"
            by (simp_all add: exact_pred_def)
          from 1(2) [OF \<open>0 < i \<or> 0 < j\<close> i True, of s'] len show ?thesis
            unfolding e by simp
        next
          case False
          with i have e: "?i = fst (exact_move acc i j)" "?j = snd (exact_move acc i j)"
            by (simp_all add: exact_pred_def)
          from 1(3) [OF \<open>0 < i \<or> 0 < j\<close> i False refl, of s'] len show ?thesis
            unfolding e by simp
        qed
      qed
      then obtain a b where
        ab: "((?i, int ?j) # exact_trace acc ?i ?j) ! s' = (a, int b)" "a \<le> ?i" "b \<le> ?j"
          "((?i, int ?j) # exact_trace acc ?i ?j) ! Suc s' = exact_pred acc a b"
        by blast
      have "((i, int j) # exact_trace acc i j) ! s = (a, int b)"
        using Suc u p ab(1) by simp
      moreover have "((i, int j) # exact_trace acc i j) ! Suc s = exact_pred acc a b"
        using Suc u p ab(4) by simp
      ultimately show ?thesis
        using ab(2,3) le by (intro exI [of _ a] exI [of _ b]) simp
    qed
  qed
qed

lemma exact_pred_interior:
  assumes "0 < a" "0 < b"
    and "\<not> is_nan (acc ! (a - 1) ! b)" "\<not> is_nan (acc ! a ! (b - 1))"
      "\<not> is_nan (acc ! (a - 1) ! (b - 1))"
  shows "\<exists>k. first_min [acc ! (a - 1) ! b, acc ! a ! (b - 1), acc ! (a - 1) ! (b - 1)] k \<and>
     exact_pred acc a b = [(a - 1, int b), (a, int b - 1), (a - 1, int b - 1)] ! k"
proof -
  let ?k = "np_argmin3 (acc ! (a - 1) ! b) (acc ! a ! (b - 1)) (acc ! (a - 1) ! (b - 1))"
  have f: "first_min [acc ! (a - 1) ! b, acc ! a ! (b - 1), acc ! (a - 1) ! (b - 1)] ?k"
    using assms(3,4,5) by (rule np_argmin3_first_min)
  from np_argmin3_less [of "acc ! (a - 1) ! b" "acc ! a ! (b - 1)" "acc ! (a - 1) ! (b - 1)"]
  consider "?k = 0" | "?k = 1" | "?k = 2" by arith
  then have "exact_pred acc a b = [(a - 1, int b), (a, int b - 1), (a - 1, int b - 1)] ! ?k"
    using assms(1,2) by cases (simp_all add: exact_pred_def exact_move_def of_nat_diff)
  with f show ?thesis by blast
qed

text \<open>
  Claim C3, amended: in the exact engine, when the accumulated matrix holds numbers only
  (no not-a-number), every interior cell \<open>(i, j)\<close> of the returned path, \<open>i > 0\<close> and
  \<open>j > 0\<close>, is preceded on the path by the cell among \<open>(i-1, j)\<close>, \<open>(i, j-1)\<close>,
  \<open>(i-1, j-1)\<close>, in this order, whose accumulated cost is the first minimum of the
  three: on ties up wins over left, and left over diagonal.
\<close>

theorem exact_path_takes_first_min:
  assumes "rect n m acc" "0 < n" "0 < m" "\<forall>a<n. \<forall>b<m. \<not> is_nan (acc ! a ! b)"
    and "Suc t < length (exact_compute_best_path acc)"
    and "exact_compute_best_path acc ! Suc t = (i, j)" "0 < i" "0 < j"
  shows "\<exists>k. first_min [acc ! (i - 1) ! nat j, acc ! i ! nat (j - 1), acc ! (i - 1) ! nat (j - 1)] k \<and>
     exact_compute_best_path acc ! t = [(i - 1, j), (i, j - 1), (i - 1, j - 1)] ! k"
proof -
  define L where "L = (n - 1, int (m - 1)) # exact_trace acc (n - 1) (m - 1)"
  have nm: "length acc = n" "ncols acc = m"
    using assms(1,2) rect_ncols [OF assms(1,2)] by (auto simp: rect_def)
  have P: "exact_compute_best_path acc = rev L"
    using assms(3) by (simp add: exact_compute_best_path_def nm exact_loop_trace L_def Let_def)
  define s where "s = length L - Suc (Suc t)"
  have len: "Suc t < length L" using assms(5) P by simp
  then have s: "Suc s < length L" "length L - Suc t = Suc s"
    by (simp_all add: s_def)
  have 1: "L ! s = (i, j)"
    using assms(6) len unfolding P s_def by (simp add: rev_nth)
  have 2: "exact_compute_best_path acc ! t = L ! Suc s"
    using len s(2) unfolding P by (simp add: rev_nth)
  from exact_trace_succ [of s "n - 1" "m - 1" acc] s(1)
  obtain a b where ab: "L ! s = (a, int b)" "a \<le> n - 1" "b \<le> m - 1"
    "L ! Suc s = exact_pred acc a b"
    unfolding L_def by blast
  from 1 ab(1) have e: "a = i" "j = int b" by simp_all
  then have b: "0 < b" "nat j = b" "nat (j - 1) = b - 1" using assms(8) by simp_all
  have r: "i < n" "i - 1 < n" "b < m" "b - 1 < m"
    using ab(2,3) e assms(2,3) by simp_all
  from exact_pred_interior [of i b acc] assms(4,7) b(1) r
  obtain k where "first_min [acc ! (i - 1) ! b, acc ! i ! (b - 1), acc ! (i - 1) ! (b - 1)] k"
    "exact_pred acc i b = [(i - 1, int b), (i, int b - 1), (i - 1, int b - 1)] ! k"
    by blast
  then show ?thesis
    using 2 ab(4) e b by auto
qed

lemmas exact_eval = exact_compute_path_def exact_compute_best_path_def
  exact_compute_accumulated_cost_matrix_def exact_acm_in_place_def exact_compute_cost_matrix_def
  acm_first_row_def first_row_cell_def exact_row_def exact_cell_def exact_move_def
  cost_cell_def norm2_def column_def dot_def np_divide_def ncols_def put_def
  pymin3_def np_argmin3_def fge_def Let_def

text \<open>
  Claim C3, as stated, fails. In the exact engine, a synthesized frame of norm zero puts
  not-a-number into the accumulated matrix; at the interior cell \<open>(1, 1)\<close> the candidates
  are not-a-number (up), \<open>0\<close> (left) and \<open>0\<close> (diagonal), and the path goes up, to a
  cell that is no minimum. In the stripe engine, the first interior step on a matrix of
  two rows and two columns raises \<open>IndexError\<close> at its first read and chooses nothing.
\<close>

theorem predecessor_not_first_min:
  "exact_compute_accumulated_cost_matrix [[0, 0], [1, 1]] [[0, 0], [1, 0]]
     = Inr [[Fin 0, NaN], [Fin 0, NaN]] \<and>
   exact_compute_path [[0, 0], [1, 1]] [[0, 0], [1, 0]] = Inr [(0, 0), (0, 1), (1, 1)] \<and>
   \<not> first_min [NaN, Fin 0, Fin 0] 0 \<and>
   stripe_compute_best_path [[Fin 1, Fin 1], [Fin 2, Fin 2]] [0, 0] = Inl IndexError"
proof (intro conjI)
  show "exact_compute_accumulated_cost_matrix [[0, 0], [1, 1]] [[0, 0], [1, 0]]
     = Inr [[Fin 0, NaN], [Fin 0, NaN]]"
    by (simp add: exact_eval)
  show "exact_compute_path [[0, 0], [1, 1]] [[0, 0], [1, 0]] = Inr [(0, 0), (0, 1), (1, 1)]"
    by (simp add: exact_eval exact_loop.simps)
  show "\<not> first_min [NaN, Fin 0, Fin 0] 0"
    by (auto simp: first_min_def)
  show "stripe_compute_best_path [[Fin 1, Fin 1], [Fin 2, Fin 2]] [0, 0] = Inl IndexError"
    by (simp add: stripe_compute_best_path_def ncols_def stripe_loop.simps stripe_costs_def
        float_item_def)
qed

theorem exact_path_takes_first_min_witness:
  "\<exists>k. first_min [Fin 0, Fin 0, Fin 0] k \<and>
     exact_compute_best_path [[Fin 0, Fin 0], [Fin 0, Fin 0]] ! 1 = [(0, 1), (1, 0), (0, 0)] ! k"
proof -
  have P: "exact_compute_best_path [[Fin 0, Fin 0], [Fin 0, Fin 0]] = [(0, 0), (0, 1), (1, 1)]"
    by (simp add: exact_eval exact_loop.simps)
  have r: "rect 2 2 [[Fin 0, Fin 0], [Fin 0, Fin 0]]"
    by (simp add: rect_def All_less_Suc numeral_2_eq_2)
  have f: "\<forall>a<2. \<forall>b<2. \<not> is_nan ([[Fin 0, Fin 0], [Fin 0, Fin 0]] ! a ! b)"
    by (simp add: All_less_Suc numeral_2_eq_2)
  from exact_path_takes_first_min [OF r _ _ f, of 1 1 1] P show ?thesis
    by simp
qed

section \<open>The path of the stripe engine\<close>

declare stripe_loop.simps [simp del]

lemma stripe_costs_Inr:
  "stripe_costs acc_matrix centers delta i j = Inr costs \<Longrightarrow> costs = (PInf, PInf, PInf)"
  by (auto simp: stripe_costs_def float_item_def Let_def split: if_splits)

lemma stripe_move_up: "stripe_move (PInf, PInf, PInf) i j = (i - 1, j)"
  by (simp add: stripe_move_def np_argmin3_PInf)

lemma stripe_loop_shape:
  "0 \<le> j \<Longrightarrow> stripe_loop acc centers delta i j path = Inr L \<Longrightarrow>
   \<exists>T. L = path @ T \<and> desc (i, j) T \<and> last ((i, j) # T) = (0, 0)"
proof (induction acc centers delta i j path arbitrary: L rule: stripe_loop.induct)
  case (1 acc centers delta i j path)
  show ?case
  proof (cases "0 < i \<or> 0 < j")
    case False
    with 1(4,5) show ?thesis
      by (subst (asm) stripe_loop.simps) auto
  next
    case True
    note pos = this
    show ?thesis
    proof (cases "i = 0")
      case True
      with pos have j: "0 < j" by simp
      from 1(5) True pos
      have "stripe_loop acc centers delta 0 (j - 1) (path @ [(0, j - 1)]) = Inr L"
        by (subst (asm) stripe_loop.simps) simp
      from 1(1) [OF pos True _ this] j obtain T where
        "L = (path @ [(0, j - 1)]) @ T" "desc (0, j - 1) T" "last ((0, j - 1) # T) = (0, 0)"
        by auto
      then have "L = path @ ((0, j - 1) # T) \<and> desc (i, j) ((0, j - 1) # T) \<and>
          last ((i, j) # (0, j - 1) # T) = (0, 0)"
        using True by simp
      then show ?thesis by blast
    next
      case False
      note i = this
      show ?thesis
      proof (cases "j = 0")
        case True
        from 1(5) True i pos
        have "stripe_loop acc centers delta (i - 1) 0 (path @ [(i - 1, 0)]) = Inr L"
          by (subst (asm) stripe_loop.simps) simp
        from 1(2) [OF pos i True _ this] obtain T where
          "L = (path @ [(i - 1, 0)]) @ T" "desc (i - 1, 0) T" "last ((i - 1, 0) # T) = (0, 0)"
          by auto
        then have "L = path @ ((i - 1, 0) # T) \<and> desc (i, j) ((i - 1, 0) # T) \<and>
            last ((i, j) # (i - 1, 0) # T) = (0, 0)"
          using True i by simp
        then show ?thesis by blast
      next
        case False
        from 1(5) False i pos obtain costs where
          c: "stripe_costs acc centers delta i j = Inr costs"
          by (subst (asm) stripe_loop.simps) (auto split: sum.splits)
        from stripe_costs_Inr [OF c] have mv: "stripe_move costs i j = (i - 1, j)"
          by (simp add: stripe_move_up)
        from 1(5) False i pos c mv
        have "stripe_loop acc centers delta (i - 1) j (path @ [(i - 1, j)]) = Inr L"
          by (subst (asm) stripe_loop.simps) (simp add: Let_def)
        from 1(3) [OF pos i False c refl, of L] mv 1(4) this obtain T where
          "L = (path @ [(i - 1, j)]) @ T" "desc (i - 1, j) T" "last ((i - 1, j) # T) = (0, 0)"
          by auto
        then have "L = path @ ((i - 1, j) # T) \<and> desc (i, j) ((i - 1, j) # T) \<and>
            last ((i, j) # (i - 1, j) # T) = (0, 0)"
          using i by simp
        then show ?thesis by blast
      qed
    qed
  qed
qed

lemma stripe_loop_row0:
  "\<exists>L. stripe_loop acc centers delta 0 (int k) path = Inr L"
proof (induction k arbitrary: path)
  case 0
  show ?case by (subst stripe_loop.simps) simp
next
  case (Suc k)
  from Suc [of "path @ [(0, int k)]"] show ?case
    by (subst stripe_loop.simps) simp
qed

lemma fold_err_preserves:
  assumes "\<And>x s s'. I s \<Longrightarrow> f x s = Inr s' \<Longrightarrow> I s'"
  shows "I s \<Longrightarrow> fold_err f xs s = Inr s' \<Longrightarrow> I s'"
proof (induction xs arbitrary: s)
  case Nil
  then show ?case by simp
next
  case (Cons x xs)
  from Cons.prems(2) obtain s1 where s1: "f x s = Inr s1" "fold_err f xs s1 = Inr s'"
    by (auto split: sum.splits)
  from assms [OF Cons.prems(1) s1(1)] have "I s1" .
  from Cons.IH [OF this s1(2)] show ?case .
qed

lemma stripe_cell_rect:
  "rect n d M \<Longrightarrow> stripe_cell off d' cur i j M = Inr M' \<Longrightarrow> rect n d M'"
  by (auto simp: stripe_cell_def Let_def rect_put split: sum.splits if_splits)

lemma stripe_row_rect:
  "rect n d M \<Longrightarrow> stripe_row centers d' i M = Inr M' \<Longrightarrow> rect n d M'"
  unfolding stripe_row_def Let_def
  by (rule fold_err_preserves [where I = "rect n d"]) (rule stripe_cell_rect)

lemma rect_acm_first_row: "rect n d M \<Longrightarrow> rect n d (acm_first_row d' M)"
proof -
  assume r: "rect n d M"
  have "rect n d (fold (first_row_cell cur) xs M0)" if "rect n d M0" for xs M0 cur
    using that by (induction xs arbitrary: M0) (simp_all add: first_row_cell_def rect_put)
  then show ?thesis
    using r by (simp add: acm_first_row_def Let_def)
qed

lemma stripe_acm_rect:
  assumes "rect n d C" "stripe_acm_in_place C centers = Inr A"
  shows "rect n d A"
proof -
  from assms(2) have "fold_err (stripe_row centers (ncols C)) [1..<length C]
      (acm_first_row (ncols C) C) = Inr A"
    by (simp add: stripe_acm_in_place_def Let_def split: if_splits)
  with rect_acm_first_row [OF assms(1)] show ?thesis
    by (rule fold_err_preserves [where I = "rect n d", rotated]) (rule stripe_row_rect)
qed

lemma stripe_best_path_shape:
  assumes "rect n d A" "0 < n" "0 < d" "0 \<le> centers ! (n - 1)"
    and "stripe_compute_best_path A centers = Inr P"
  shows "monotone_path n (nat (centers ! (n - 1) + int d)) P"
proof -
  have nm: "length A = n" "ncols A = d"
    using assms(1,2) rect_ncols [OF assms(1,2)] by (auto simp: rect_def)
  define j where "j = int d - 1 + centers ! (n - 1)"
  have j0: "0 \<le> j" using assms(3,4) by (simp add: j_def)
  from assms(5) obtain L where
    L: "stripe_loop A centers (int d) (n - 1) j [(n - 1, j)] = Inr L" and P: "P = rev L"
    by (auto simp: stripe_compute_best_path_def nm Let_def j_def split: sum.splits)
  from stripe_loop_shape [OF j0 L] obtain T where
    T: "L = [(n - 1, j)] @ T" "desc (n - 1, j) T" "last ((n - 1, j) # T) = (0, 0)"
    by blast
  have PL: "P = rev ((n - 1, j) # T)" using P T(1) by simp
  have "hd P = (0, 0)"
    unfolding PL using T(3) by (simp only: hd_rev)
  moreover have "last P = (n - 1, j)"
    unfolding PL by (simp only: last_rev list.sel)
  moreover have "steps_ok P"
    unfolding PL by (rule steps_ok_rev [OF T(2)])
  moreover have "P \<noteq> []" unfolding PL by simp
  moreover have "j = int (nat (centers ! (n - 1) + int d)) - 1"
    using assms(3,4) by (simp add: j_def)
  ultimately show ?thesis
    by (simp add: monotone_path_def)
qed

lemma monotone_path_length:
  assumes "monotone_path n m P" "0 < n" "0 < m"
  shows "max n m \<le> length P \<and> length P \<le> n + m - 1"
proof -
  from assms(1) have P: "P \<noteq> []" "hd P = (0, 0)" "last P = (n - 1, int m - 1)" "steps_ok P"
    by (simp_all add: monotone_path_def)
  from steps_ok_bounds [OF P(4,1)] P(2,3) assms(2,3) show ?thesis
    by auto
qed

lemma stripe_cost_matrix_valid:
  assumes "valid_pair m1 m2" "1 \<le> delta0"
  obtains C where
    "stripe_compute_cost_matrix m1 m2 delta0 =
       Inr (C, stripe_centers (ncols m1) (ncols m2) (nat (clamp_delta (ncols m2) delta0)))"
    "rect (ncols m1) (nat (clamp_delta (ncols m2) delta0)) C"
proof -
  have e: "length (tl m1) = length (tl m2)"
    using assms(1) by (rule valid_pair_same_coeffs)
  have d0: "0 \<le> delta0" using assms(2) by simp
  show thesis
    by (rule that [OF stripe_cost_matrix_eq [OF e d0]]) (simp add: rect_def)
qed

lemma clamp_delta_pos:
  assumes "valid_pair m1 m2" "1 \<le> delta0"
  shows "0 < nat (clamp_delta (ncols m2) delta0)"
  using valid_pair_frames [OF assms(1)] assms(2) by (auto simp: clamp_delta_def)

lemma stripe_last_center_nonneg:
  assumes "0 < n"
  shows "0 \<le> stripe_centers n m (nat (clamp_delta m delta0)) ! (n - 1)"
  using assms stripe_range_bounds(1) [OF clamp_delta_le, of n m delta0 "n - 1"]
  by (simp add: stripe_centers_def)

lemma stripe_path_shape:
  assumes "valid_pair m1 m2" "1 \<le> delta0" "stripe_compute_path m1 m2 delta0 = Inr P"
  shows "monotone_path (ncols m1)
     (nat (stripe_centers (ncols m1) (ncols m2) (nat (clamp_delta (ncols m2) delta0)) ! (ncols m1 - 1)
           + clamp_delta (ncols m2) delta0)) P"
proof (rule stripe_cost_matrix_valid [OF assms(1,2)])
  fix C
  let ?n = "ncols m1" and ?d = "nat (clamp_delta (ncols m2) delta0)"
  let ?cs = "stripe_centers ?n (ncols m2) ?d"
  assume C: "stripe_compute_cost_matrix m1 m2 delta0 = Inr (C, ?cs)" and r: "rect ?n ?d C"
  have n: "0 < ?n" using valid_pair_frames [OF assms(1)] by simp
  have d: "0 < ?d" using assms(1,2) by (rule clamp_delta_pos)
  from assms(3) C obtain A where A: "stripe_acm_in_place C ?cs = Inr A"
    and P: "stripe_compute_best_path A ?cs = Inr P"
    by (auto simp: stripe_compute_path_def stripe_compute_path_pure_python_def
        run_c_extension_with_fallback_def split: sum.splits)
  from stripe_best_path_shape [OF stripe_acm_rect [OF r A] n d stripe_last_center_nonneg [OF n] P]
  show ?thesis
    using d by simp
qed

lemma stripe_path_one_frame:
  assumes "valid_pair m1 m2" "1 \<le> delta0" "ncols m1 = 1"
  shows "\<exists>P. stripe_compute_path m1 m2 delta0 = Inr P"
proof (rule stripe_cost_matrix_valid [OF assms(1,2)])
  fix C
  let ?d = "nat (clamp_delta (ncols m2) delta0)"
  let ?cs = "stripe_centers (ncols m1) (ncols m2) ?d"
  assume C: "stripe_compute_cost_matrix m1 m2 delta0 = Inr (C, ?cs)"
    and r: "rect (ncols m1) ?d C"
  have l: "length C = 1" using r assms(3) by (simp add: rect_def)
  have A: "stripe_acm_in_place C ?cs = Inr (acm_first_row (ncols C) C)"
    using l by (simp add: stripe_acm_in_place_def Let_def)
  have l': "length (acm_first_row (ncols C) C) = 1"
    using rect_acm_first_row [OF r, of "ncols C"] assms(3) by (simp add: rect_def)
  have d: "0 < ?d" using assms(1,2) by (rule clamp_delta_pos)
  have nc: "ncols (acm_first_row (ncols C) C) = ?d"
    using rect_ncols [OF rect_acm_first_row [OF r, of "ncols C"]] assms(3) by simp
  have c0: "?cs ! 0 = 0"
    using assms(3) clamp_delta_le [of "ncols m2" delta0]
    by (simp add: stripe_centers_def stripe_range_fst_0)
  obtain k where k: "int ?d - 1 + ?cs ! 0 = int k"
    using d c0 by (intro that [of "?d - 1"]) simp
  from stripe_loop_row0 [of "acm_first_row (ncols C) C" ?cs "int ?d" k "[(0, int k)]"]
  obtain L where "stripe_loop (acm_first_row (ncols C) C) ?cs (int ?d) 0 (int k) [(0, int k)] = Inr L"
    by blast
  then have "stripe_compute_best_path (acm_first_row (ncols C) C) ?cs = Inr (rev L)"
    using k by (simp add: stripe_compute_best_path_def l' nc Let_def)
  then show ?thesis
    using C A
    by (simp add: stripe_compute_path_def stripe_compute_path_pure_python_def
        run_c_extension_with_fallback_def)
qed

section \<open>Endpoints and steps of the returned paths\<close>

lemma exact_path_valid:
  assumes "valid_pair m1 m2"
  shows "\<exists>P. exact_compute_path m1 m2 = Inr P \<and> monotone_path (ncols m1) (ncols m2) P"
proof (rule exact_engine_valid [OF assms])
  fix A :: "fl list list"
  assume P: "exact_compute_path m1 m2 =
       Inr (rev ((ncols m1 - 1, int (ncols m2 - 1)) # exact_trace A (ncols m1 - 1) (ncols m2 - 1)))"
  have "monotone_path (Suc (ncols m1 - 1)) (Suc (ncols m2 - 1))
      (rev ((ncols m1 - 1, int (ncols m2 - 1)) # exact_trace A (ncols m1 - 1) (ncols m2 - 1)))"
    by (rule exact_path_shape)
  with P valid_pair_frames [OF assms] show ?thesis by simp
qed

lemmas stripe_eval = stripe_compute_path_def stripe_compute_path_pure_python_def
  stripe_compute_accumulated_cost_matrix_def stripe_compute_acm_pure_python_def
  run_c_extension_with_fallback_def stripe_compute_cost_matrix_def stripe_acm_in_place_def
  stripe_row_def stripe_cell_def stripe_compute_best_path_def stripe_costs_def stripe_move_def
  float_item_def stripe_cost_row_def stripe_range_def clamp_delta_def stripe_centers_def
  acm_first_row_def first_row_cell_def cost_cell_def norm2_def column_def dot_def np_divide_def
  ncols_def put_def pymin3_def np_argmin3_def fge_def Let_def eval_nat_numeral

lemma valid_pair_one_three: "valid_pair [[0], [1]] [[0, 0, 0], [1, 1, 1]]"
  by (simp add: valid_pair_def wf_mfcc_def ncols_def norm2_def column_def)

text \<open>
  Claim C2, as stated, fails: for one real frame, three synthesized frames and a band of
  width \<open>1\<close>, the stripe engine returns the path \<open>[(0, 0)]\<close>, which does not end at
  \<open>(n-1, m-1) = (0, 2)\<close> and is shorter than \<open>max(n, m) = 3\<close>.
\<close>

theorem stripe_path_stops_short:
  "valid_pair [[0], [1]] [[0, 0, 0], [1, 1, 1]] \<and>
   stripe_compute_path [[0], [1]] [[0, 0, 0], [1, 1, 1]] 1 = Inr [(0, 0)] \<and>
   last [(0, 0 :: int)] \<noteq> (ncols [[0], [1 :: real]] - 1, int (ncols [[0, 0, 0], [1, 1, 1 :: real]]) - 1) \<and>
   length [(0 :: nat, 0 :: int)] < max (ncols [[0], [1 :: real]]) (ncols [[0, 0, 0], [1, 1, 1 :: real]])"
  by (simp add: valid_pair_one_three) (simp add: stripe_eval stripe_loop.simps)

text \<open>
  Claim C2, amended: for a valid pair, the path of the exact engine starts at \<open>(0, 0)\<close>,
  ends at \<open>(n-1, m-1)\<close> and moves by the steps \<open>(1,0)\<close>, \<open>(0,1)\<close>, \<open>(1,1)\<close>, so its
  length is between \<open>max(n, m)\<close> and \<open>n + m - 1\<close>. For a band width of at least \<open>1\<close>,
  every path that the portable code of the stripe engine returns starts at \<open>(0, 0)\<close>,
  moves by the same steps, and ends at \<open>(n-1, centers[n-1] + delta - 1)\<close>, the last cell
  of the band of the last row, so its length is between \<open>max(n, centers[n-1] + delta)\<close>
  and \<open>n + centers[n-1] + delta - 1\<close>; it returns one when \<open>n = 1\<close>.
\<close>

theorem engine_paths_monotone:
  assumes "valid_pair m1 m2" "1 \<le> delta"
  shows "(\<exists>P. exact_compute_path m1 m2 = Inr P \<and>
            monotone_path (ncols m1) (ncols m2) P \<and>
            max (ncols m1) (ncols m2) \<le> length P \<and> length P \<le> ncols m1 + ncols m2 - 1) \<and>
         (\<forall>P. stripe_compute_path m1 m2 delta = Inr P \<longrightarrow>
            monotone_path (ncols m1)
              (nat (stripe_centers (ncols m1) (ncols m2) (nat (clamp_delta (ncols m2) delta))
                      ! (ncols m1 - 1) + clamp_delta (ncols m2) delta)) P \<and>
            max (ncols m1)
              (nat (stripe_centers (ncols m1) (ncols m2) (nat (clamp_delta (ncols m2) delta))
                      ! (ncols m1 - 1) + clamp_delta (ncols m2) delta)) \<le> length P \<and>
            length P \<le> ncols m1
              + nat (stripe_centers (ncols m1) (ncols m2) (nat (clamp_delta (ncols m2) delta))
                      ! (ncols m1 - 1) + clamp_delta (ncols m2) delta) - 1) \<and>
         (ncols m1 = 1 \<longrightarrow> (\<exists>P. stripe_compute_path m1 m2 delta = Inr P))"
proof (intro conjI allI impI)
  have nm: "0 < ncols m1" "0 < ncols m2" using valid_pair_frames [OF assms(1)] by auto
  from exact_path_valid [OF assms(1)] obtain P where
    P: "exact_compute_path m1 m2 = Inr P" "monotone_path (ncols m1) (ncols m2) P" by blast
  from monotone_path_length [OF P(2) nm] P
  show "\<exists>P. exact_compute_path m1 m2 = Inr P \<and>
            monotone_path (ncols m1) (ncols m2) P \<and>
            max (ncols m1) (ncols m2) \<le> length P \<and> length P \<le> ncols m1 + ncols m2 - 1"
    by blast
next
  fix P
  let ?e = "nat (stripe_centers (ncols m1) (ncols m2) (nat (clamp_delta (ncols m2) delta))
                      ! (ncols m1 - 1) + clamp_delta (ncols m2) delta)"
  assume "stripe_compute_path m1 m2 delta = Inr P"
  from stripe_path_shape [OF assms this] have mp: "monotone_path (ncols m1) ?e P" .
  have n: "0 < ncols m1" using valid_pair_frames [OF assms(1)] by auto
  have "0 < clamp_delta (ncols m2) delta"
    using clamp_delta_pos [OF assms] by simp
  with stripe_last_center_nonneg [OF n, of "ncols m2" delta] have e: "0 < ?e" by simp
  from monotone_path_length [OF mp n e] mp
  show "monotone_path (ncols m1) ?e P" "max (ncols m1) ?e \<le> length P"
    "length P \<le> ncols m1 + ?e - 1"
    by simp_all
next
  assume "ncols m1 = 1"
  with assms show "\<exists>P. stripe_compute_path m1 m2 delta = Inr P"
    by (rule stripe_path_one_frame)
qed

theorem engine_paths_monotone_witness:
  "(\<exists>P. exact_compute_path [[0], [1]] [[0, 0, 0], [1, 1, 1]] = Inr P \<and>
        monotone_path 1 3 P \<and> 3 \<le> length P \<and> length P \<le> 3) \<and>
   (\<exists>P. stripe_compute_path [[0], [1]] [[0, 0, 0], [1, 1, 1]] 1 = Inr P \<and>
        monotone_path 1 1 P \<and> 1 \<le> length P \<and> length P \<le> 1)"
proof -
  have c: "ncols [[0], [1 :: real]] = 1" "ncols [[0, 0, 0], [1, 1, 1 :: real]] = 3"
    by (simp_all add: ncols_def)
  have e: "nat (stripe_centers 1 3 (nat (clamp_delta 3 1)) ! 0 + clamp_delta 3 1) = 1"
    by (simp add: stripe_centers_def stripe_range_def clamp_delta_def)
  note t = engine_paths_monotone [OF valid_pair_one_three, of 1, unfolded c, simplified]
  from t obtain P where "stripe_compute_path [[0], [1]] [[0, 0, 0], [1, 1, 1]] 1 = Inr P"
    by blast
  with t e show ?thesis by auto
qed

section \<open>The indices stored by the aligner\<close>

lemma monotone_path_indices:
  assumes "monotone_path n m P" "0 < n"
  shows "length (map (\<lambda>r. r + h) (map fst P)) = length (map snd P) \<and>
         sorted (map (\<lambda>r. r + h) (map fst P)) \<and> sorted (map snd P) \<and>
         hd (map (\<lambda>r. r + h) (map fst P)) = h \<and>
         last (map (\<lambda>r. r + h) (map fst P)) = h + n - 1 \<and>
         hd (map snd P) = 0 \<and> last (map snd P) = int m - 1"
proof -
  from assms(1) have ne: "P \<noteq> []" and h: "hd P = (0, 0)" and l: "last P = (n - 1, int m - 1)"
    and s: "steps_ok P"
    by (simp_all add: monotone_path_def)
  from steps_ok_sorted [OF s] have so: "sorted (map fst P)" "sorted (map snd P)" by simp_all
  have "sorted (map (\<lambda>r. r + h) (map fst P))"
    using so(1) by (simp add: sorted_iff_nth_mono)
  moreover have "last (map (\<lambda>r. r + h) (map fst P)) = h + n - 1"
  proof -
    have "last (map (\<lambda>r. r + h) (map fst P)) = fst (last P) + h"
      using ne by (simp add: last_map)
    also have "\<dots> = n - 1 + h" using l by simp
    finally show ?thesis
      using assms(2) by simp
  qed
  ultimately show ?thesis
    using ne h l so by (simp add: hd_map last_map)
qed

lemma setup_dtw_selected:
  assumes "real_wave_mfcc a = Some rw" "middle_mfcc rw = Some m1"
    and "synt_wave_mfcc a = Some sw" "middle_mfcc sw = Some m2"
    and "mfcc_win_shift (rconf a) \<noteq> 0"
  shows "setup_dtw can_run_c_extension a =
     Inr (if dtw_algorithm (rconf a) = EXACT
            \<or> (int (ncols m2) \<le> derived_delta (rconf a)
                 \<and> \<not> (c_ext (rconf a) \<and> can_run_c_extension))
          then DTWExact m1 m2 else DTWStripe m1 m2 (derived_delta (rconf a)))"
  using assms by (auto simp: setup_dtw_def middle_length_def Let_def)

text \<open>
  An aligner for the examples: one real frame after a head of seven frames, three
  synthesized frames, the stripe algorithm and a band of width
  \<open>int(2 * 0.02 / 0.04) = 1\<close>.
\<close>

definition aligner_narrow_band :: aligner where
  "aligner_narrow_band =
     \<lparr>real_wave_mfcc = Some \<lparr>middle_mfcc = Some [[0], [1]], head_length = 7\<rparr>,
      synt_wave_mfcc = Some \<lparr>middle_mfcc = Some [[0, 0, 0], [1, 1, 1]], head_length = 0\<rparr>,
      rconf = \<lparr>dtw_algorithm = STRIPE, dtw_margin = 1 / 50, mfcc_win_shift = 1 / 25,
               c_ext = False\<rparr>,
      computed_path = None\<rparr>"

lemma narrow_band_delta: "derived_delta (rconf aligner_narrow_band) = 1"
  by (simp add: aligner_narrow_band_def derived_delta_def py_int_def)

text \<open>
  Claim C8, as stated, fails: on this aligner \<open>compute_path\<close> stores the indices
  \<open>([7], [0])\<close>, and the synthesized indices end at \<open>0\<close>, not at \<open>m - 1 = 2\<close>.
\<close>

theorem stored_synt_indices_stop_short:
  "valid_pair [[0], [1]] [[0, 0, 0], [1, 1, 1]] \<and>
   compute_path False aligner_narrow_band
     = Inr (aligner_narrow_band\<lparr>computed_path := Some ([7], [0])\<rparr>) \<and>
   last [0 :: int] \<noteq> int (ncols [[0, 0, 0], [1, 1, 1 :: real]]) - 1"
proof -
  have "setup_dtw False aligner_narrow_band = Inr (DTWStripe [[0], [1]] [[0, 0, 0], [1, 1, 1]] 1)"
    by (simp add: setup_dtw_def aligner_narrow_band_def derived_delta_def py_int_def
        middle_length_def ncols_def Let_def)
  moreover have "stripe_compute_path [[0], [1]] [[0, 0, 0], [1, 1, 1]] 1 = Inr [(0, 0)]"
    by (simp add: stripe_eval stripe_loop.simps)
  ultimately have "compute_path False aligner_narrow_band
     = Inr (aligner_narrow_band\<lparr>computed_path := Some ([7], [0])\<rparr>)"
    by (simp add: compute_path_def) (simp add: aligner_narrow_band_def)
  then show ?thesis
    by (simp add: valid_pair_one_three ncols_def)
qed

text \<open>
  Claim C8, amended. Let both MFCC matrices be present and form a valid pair, and the
  window shift be other than zero. When the exact engine is selected (it is the
  configured algorithm, or the synthesized wave has no more frames than \<open>delta\<close> and
  the native code cannot run), \<open>compute_path\<close> stores a pair of sequences of equal
  length, each non-decreasing, the real indices from \<open>head_length\<close> to
  \<open>head_length + n - 1\<close> and the synthesized ones from \<open>0\<close> to \<open>m - 1\<close>. When the
  stripe engine is selected with \<open>1 \<le> delta < m\<close> and its portable code runs, every
  result that \<open>compute_path\<close> stores is such a pair with the synthesized indices ending
  at \<open>centers[n-1] + delta - 1\<close>; it stores one when \<open>n = 1\<close>.
\<close>

theorem compute_path_stored_indices:
  assumes "real_wave_mfcc a = Some rw" "middle_mfcc rw = Some m1"
    and "synt_wave_mfcc a = Some sw" "middle_mfcc sw = Some m2"
    and "valid_pair m1 m2" "mfcc_win_shift (rconf a) \<noteq> 0"
  shows "(dtw_algorithm (rconf a) = EXACT
            \<or> (int (ncols m2) \<le> derived_delta (rconf a) \<and> \<not> (c_ext (rconf a) \<and> c)) \<longrightarrow>
          (\<exists>rs ss. compute_path c a = Inr (a\<lparr>computed_path := Some (rs, ss)\<rparr>) \<and>
             length rs = length ss \<and> sorted rs \<and> sorted ss \<and>
             hd rs = head_length rw \<and> last rs = head_length rw + ncols m1 - 1 \<and>
             hd ss = 0 \<and> last ss = int (ncols m2) - 1)) \<and>
         (dtw_algorithm (rconf a) = STRIPE \<and> 1 \<le> derived_delta (rconf a)
            \<and> derived_delta (rconf a) < int (ncols m2) \<longrightarrow>
          (\<forall>a'. compute_path False a = Inr a' \<longrightarrow>
             (\<exists>rs ss. a' = a\<lparr>computed_path := Some (rs, ss)\<rparr> \<and>
                length rs = length ss \<and> sorted rs \<and> sorted ss \<and>
                hd rs = head_length rw \<and> last rs = head_length rw + ncols m1 - 1 \<and>
                hd ss = 0 \<and>
                last ss = stripe_centers (ncols m1) (ncols m2) (nat (derived_delta (rconf a)))
                            ! (ncols m1 - 1) + derived_delta (rconf a) - 1)) \<and>
          (ncols m1 = 1 \<longrightarrow> (\<exists>a'. compute_path False a = Inr a')))"
proof (intro conjI impI allI)
  have n: "0 < ncols m1" using valid_pair_frames [OF assms(5)] by auto
  note sel = setup_dtw_selected [OF assms(1-4) assms(6)]
  {
    assume "dtw_algorithm (rconf a) = EXACT
            \<or> (int (ncols m2) \<le> derived_delta (rconf a) \<and> \<not> (c_ext (rconf a) \<and> c))"
    then have s: "setup_dtw c a = Inr (DTWExact m1 m2)"
      using sel [of c] by simp
    from exact_path_valid [OF assms(5)] obtain P where
      P: "exact_compute_path m1 m2 = Inr P" "monotone_path (ncols m1) (ncols m2) P" by blast
    from s P(1) assms(1) have "compute_path c a
        = Inr (a\<lparr>computed_path := Some (map (\<lambda>r. r + head_length rw) (map fst P), map snd P)\<rparr>)"
      by (simp add: compute_path_def)
    with monotone_path_indices [OF P(2) n, of "head_length rw"]
    show "\<exists>rs ss. compute_path c a = Inr (a\<lparr>computed_path := Some (rs, ss)\<rparr>) \<and>
             length rs = length ss \<and> sorted rs \<and> sorted ss \<and>
             hd rs = head_length rw \<and> last rs = head_length rw + ncols m1 - 1 \<and>
             hd ss = 0 \<and> last ss = int (ncols m2) - 1"
      by blast
  }
  {
    assume st: "dtw_algorithm (rconf a) = STRIPE \<and> 1 \<le> derived_delta (rconf a)
            \<and> derived_delta (rconf a) < int (ncols m2)"
    let ?d = "derived_delta (rconf a)"
    let ?lc = "stripe_centers (ncols m1) (ncols m2) (nat ?d) ! (ncols m1 - 1)"
    from st have s: "setup_dtw False a = Inr (DTWStripe m1 m2 ?d)"
      using sel [of False] by simp
    have cl: "clamp_delta (ncols m2) ?d = ?d"
      using st by (simp add: clamp_delta_def)
    have d1: "1 \<le> ?d" using st by simp
    {
      fix a'
      assume c: "compute_path False a = Inr a'"
      with s obtain P where P: "stripe_compute_path m1 m2 ?d = Inr P"
        by (auto simp: compute_path_def split: sum.splits)
      from stripe_path_shape [OF assms(5) d1 P]
      have mp: "monotone_path (ncols m1) (nat (?lc + ?d)) P"
        by (simp add: cl)
      have "0 \<le> ?lc"
        using stripe_last_center_nonneg [OF n, of "ncols m2" ?d] by (simp add: cl)
      with d1 have e: "int (nat (?lc + ?d)) - 1 = ?lc + ?d - 1" by simp
      note ix = monotone_path_indices [OF mp n, of "head_length rw", unfolded e]
      from c s P assms(1) have "a'
        = a\<lparr>computed_path := Some (map (\<lambda>r. r + head_length rw) (map fst P), map snd P)\<rparr>"
        by (simp add: compute_path_def)
      with ix
      show "\<exists>rs ss. a' = a\<lparr>computed_path := Some (rs, ss)\<rparr> \<and>
                length rs = length ss \<and> sorted rs \<and> sorted ss \<and>
                hd rs = head_length rw \<and> last rs = head_length rw + ncols m1 - 1 \<and>
                hd ss = 0 \<and> last ss = ?lc + ?d - 1"
        by blast
    }
    {
      assume "ncols m1 = 1"
      with assms(5) d1 obtain P where "stripe_compute_path m1 m2 ?d = Inr P"
        using stripe_path_one_frame by blast
      with s show "\<exists>a'. compute_path False a = Inr a'"
        by (simp add: compute_path_def)
    }
  }
qed

theorem compute_path_stored_indices_witness:
  "(\<exists>rs ss. compute_path False (aligner_narrow_band\<lparr>rconf :=
         \<lparr>dtw_algorithm = EXACT, dtw_margin = 1 / 50, mfcc_win_shift = 1 / 25, c_ext = False\<rparr>\<rparr>)
       = Inr (aligner_narrow_band\<lparr>rconf :=
         \<lparr>dtw_algorithm = EXACT, dtw_margin = 1 / 50, mfcc_win_shift = 1 / 25, c_ext = False\<rparr>,
         computed_path := Some (rs, ss)\<rparr>) \<and>
       length rs = length ss \<and> sorted rs \<and> sorted ss \<and>
       hd rs = 7 \<and> last rs = 7 \<and> hd ss = 0 \<and> last ss = 2) \<and>
   (\<exists>rs ss. compute_path False aligner_narrow_band
         = Inr (aligner_narrow_band\<lparr>computed_path := Some (rs, ss)\<rparr>) \<and>
       length rs = length ss \<and> sorted rs \<and> sorted ss \<and>
       hd rs = 7 \<and> last rs = 7 \<and> hd ss = 0 \<and> last ss = 0)"
proof
  let ?rw = "\<lparr>middle_mfcc = Some [[0], [1 :: real]], head_length = 7\<rparr>"
  let ?sw = "\<lparr>middle_mfcc = Some [[0, 0, 0], [1, 1, 1 :: real]], head_length = 0\<rparr>"
  have c: "ncols [[0], [1 :: real]] = 1" "ncols [[0, 0, 0], [1, 1, 1 :: real]] = 3"
    by (simp_all add: ncols_def)
  let ?e = "aligner_narrow_band\<lparr>rconf :=
         \<lparr>dtw_algorithm = EXACT, dtw_margin = 1 / 50, mfcc_win_shift = 1 / 25, c_ext = False\<rparr>\<rparr>"
  have "real_wave_mfcc ?e = Some ?rw" "middle_mfcc ?rw = Some [[0], [1]]"
    "synt_wave_mfcc ?e = Some ?sw" "middle_mfcc ?sw = Some [[0, 0, 0], [1, 1, 1]]"
    "mfcc_win_shift (rconf ?e) \<noteq> 0"
    by (simp_all add: aligner_narrow_band_def)
  from compute_path_stored_indices [OF this(1-4) valid_pair_one_three this(5), of False]
  show "\<exists>rs ss. compute_path False ?e = Inr (?e\<lparr>computed_path := Some (rs, ss)\<rparr>) \<and>
       length rs = length ss \<and> sorted rs \<and> sorted ss \<and>
       hd rs = 7 \<and> last rs = 7 \<and> hd ss = 0 \<and> last ss = 2"
    by (simp add: c)
  have "real_wave_mfcc aligner_narrow_band = Some ?rw" "middle_mfcc ?rw = Some [[0], [1]]"
    "synt_wave_mfcc aligner_narrow_band = Some ?sw"
    "middle_mfcc ?sw = Some [[0, 0, 0], [1, 1, 1]]"
    "mfcc_win_shift (rconf aligner_narrow_band) \<noteq> 0"
    by (simp_all add: aligner_narrow_band_def)
  note t = compute_path_stored_indices [OF this(1-4) valid_pair_one_three this(5), of False,
      unfolded narrow_band_delta c]
  have s: "dtw_algorithm (rconf aligner_narrow_band) = STRIPE"
    by (simp add: aligner_narrow_band_def)
  have lc: "stripe_centers 1 3 (nat 1) ! (1 - 1) + 1 - 1 = 0"
    by (simp add: stripe_centers_def stripe_range_def)
  from t s obtain a' where a': "compute_path False aligner_narrow_band = Inr a'"
    by auto
  with t s lc show "\<exists>rs ss. compute_path False aligner_narrow_band
         = Inr (aligner_narrow_band\<lparr>computed_path := Some (rs, ss)\<rparr>) \<and>
       length rs = length ss \<and> sorted rs \<and> sorted ss \<and>
       hd rs = 7 \<and> last rs = 7 \<and> hd ss = 0 \<and> last ss = 0"
    by auto
qed

section \<open>The stripe engine with a band as wide as the matrix\<close>

lemma stripe_centers_full_width:
  assumes "i < n"
  shows "stripe_centers n m m ! i = 0"
  using assms by (simp add: stripe_centers_def stripe_range_def Let_def)

lemma stripe_row_raises:
  assumes "0 < delta" "centers ! i - centers ! (i - 1) < int delta"
  shows "stripe_row centers delta i M = Inl IndexError"
proof -
  from assms(1) have "[0..<delta] = 0 # [1..<delta]"
    by (simp add: upt_conv_Cons)
  with assms(2) show ?thesis
    by (simp add: stripe_row_def stripe_cell_def float_item_def Let_def)
qed

lemma stripe_acm_raises:
  assumes "2 \<le> length cost_matrix" "0 < ncols cost_matrix"
    and "centers ! 1 - centers ! 0 < int (ncols cost_matrix)"
  shows "stripe_acm_in_place cost_matrix centers = Inl IndexError"
proof -
  from assms(1) have "[1..<length cost_matrix] = 1 # [2..<length cost_matrix]"
    by (simp add: upt_conv_Cons numeral_2_eq_2)
  moreover have "stripe_row centers (ncols cost_matrix) 1 M = Inl IndexError" for M
    using assms(2,3) by (simp add: stripe_row_raises)
  ultimately show ?thesis
    using assms(1) by (simp add: stripe_acm_in_place_def Let_def)
qed

text \<open>
  Claim C4 does not hold of the code. With a band width of at least \<open>m\<close> every center
  is \<open>0\<close>, so \<open>offset\<close> is the double \<open>0.0\<close>, and with two real frames or more the
  accumulation reads \<open>cost_matrix[i-1][j+offset]\<close> at a double: the portable code of the
  stripe engine raises, and both of its entry points end in \<open>RuntimeError\<close>. It yields
  neither a terminal value nor a path, where the exact engine returns both.
\<close>

theorem stripe_raises_at_full_width:
  assumes "valid_pair m1 m2" "2 \<le> ncols m1" "int (ncols m2) \<le> delta"
  shows "stripe_compute_accumulated_cost_matrix m1 m2 delta = Inl RuntimeError \<and>
         stripe_compute_path m1 m2 delta = Inl RuntimeError \<and>
         (\<exists>A P. exact_compute_accumulated_cost_matrix m1 m2 = Inr A \<and>
                exact_compute_path m1 m2 = Inr P)"
proof -
  let ?n = "ncols m1" and ?m = "ncols m2"
  have m: "0 < ?m" using valid_pair_frames [OF assms(1)] by simp
  with assms(3) have d1: "1 \<le> delta" by simp
  have cl: "nat (clamp_delta ?m delta) = ?m"
    using assms(3) by (auto simp: clamp_delta_def)
  from stripe_cost_matrix_valid [OF assms(1) d1] obtain C where
    C: "stripe_compute_cost_matrix m1 m2 delta = Inr (C, stripe_centers ?n ?m ?m)"
       "rect ?n ?m C"
    unfolding cl by blast
  from C(2) assms(2) have l: "2 \<le> length C" by (simp add: rect_def)
  from C(2) assms(2) have nc: "ncols C = ?m" by (simp add: rect_ncols)
  have "stripe_centers ?n ?m ?m ! 1 - stripe_centers ?n ?m ?m ! 0 = 0"
    using assms(2) by (simp add: stripe_centers_full_width)
  with m nc l have r: "stripe_acm_in_place C (stripe_centers ?n ?m ?m) = Inl IndexError"
    by (simp add: stripe_acm_raises)
  have 1: "stripe_compute_accumulated_cost_matrix m1 m2 delta = Inl RuntimeError"
    using C(1) r
    by (simp add: stripe_compute_accumulated_cost_matrix_def stripe_compute_acm_pure_python_def
        run_c_extension_with_fallback_def)
  have 2: "stripe_compute_path m1 m2 delta = Inl RuntimeError"
    using C(1) r
    by (simp add: stripe_compute_path_def stripe_compute_path_pure_python_def
        run_c_extension_with_fallback_def)
  have 3: "\<exists>A P. exact_compute_accumulated_cost_matrix m1 m2 = Inr A \<and>
                exact_compute_path m1 m2 = Inr P"
  proof (rule exact_engine_valid [OF assms(1)])
    fix C A
    assume "exact_compute_accumulated_cost_matrix m1 m2 = Inr A"
      and "exact_compute_path m1 m2 =
       Inr (rev ((ncols m1 - 1, int (ncols m2 - 1)) # exact_trace A (ncols m1 - 1) (ncols m2 - 1)))"
    then show ?thesis by blast
  qed
  from 1 2 3 show ?thesis by blast
qed

theorem stripe_raises_at_full_width_witness:
  "stripe_compute_accumulated_cost_matrix [[0, 0], [1, 1]] [[0, 0], [1, 1]] 3 = Inl RuntimeError \<and>
   stripe_compute_path [[0, 0], [1, 1]] [[0, 0], [1, 1]] 3 = Inl RuntimeError \<and>
   exact_compute_accumulated_cost_matrix [[0, 0], [1, 1]] [[0, 0], [1, 1]]
     = Inr [[Fin 0, Fin 0], [Fin 0, Fin 0]] \<and>
   exact_compute_path [[0, 0], [1, 1]] [[0, 0], [1, 1]] = Inr [(0, 0), (0, 1), (1, 1)]"
proof -
  have c: "2 \<le> ncols [[0, 0], [1, 1 :: real]]" "int (ncols [[0, 0], [1, 1 :: real]]) \<le> 3"
    by (simp_all add: ncols_def)
  have "exact_compute_accumulated_cost_matrix [[0, 0], [1, 1]] [[0, 0], [1, 1]]
     = Inr [[Fin 0, Fin 0], [Fin 0, Fin 0]]"
    by (simp add: exact_eval)
  moreover have "exact_compute_path [[0, 0], [1, 1]] [[0, 0], [1, 1]]
     = Inr [(0, 0), (0, 1), (1, 1)]"
    by (simp add: exact_eval exact_loop.simps)
  ultimately show ?thesis
    using stripe_raises_at_full_width [OF valid_pair_two_frames c] by simp
qed

section \<open>The band of the stripe engine\<close>

text \<open>
  The band of row \<open>i\<close> is the range of columns \<open>centers[i] \<le> j < centers[i] + delta\<close>.
\<close>

definition in_band :: "int list \<Rightarrow> int \<Rightarrow> nat \<times> int \<Rightarrow> bool" where
  "in_band centers delta p = (centers ! fst p \<le> snd p \<and> snd p < centers ! fst p + delta)"

lemma valid_pair_two_four: "valid_pair [[0, 0], [1, 1]] [[0, 0, 0, 0], [1, 1, 1, 1]]"
  by (simp add: valid_pair_def wf_mfcc_def ncols_def norm2_def column_def)

text \<open>
  Claim C6 does not hold of the code. For two real frames, four synthesized frames and a
  band of width \<open>1\<close> the centers are \<open>[0, 2]\<close>, and the stripe engine returns the path
  \<open>[(0, 0), (0, 1), (0, 2), (1, 2)]\<close>, whose cells \<open>(0, 1)\<close> and \<open>(0, 2)\<close> are outside
  the band of row \<open>0\<close>. The bands of the two rows do not meet: at the interior cell
  \<open>(1, 2)\<close> no candidate is read, all three costs are \<open>inf\<close>, and \<open>argmin\<close> takes the
  move up, out of the band.
\<close>

theorem stripe_path_leaves_band:
  "valid_pair [[0, 0], [1, 1]] [[0, 0, 0, 0], [1, 1, 1, 1]] \<and>
   stripe_compute_cost_matrix [[0, 0], [1, 1]] [[0, 0, 0, 0], [1, 1, 1, 1]] 1
     = Inr ([[Fin 0], [Fin 0]], [0, 2]) \<and>
   stripe_compute_path [[0, 0], [1, 1]] [[0, 0, 0, 0], [1, 1, 1, 1]] 1
     = Inr [(0, 0), (0, 1), (0, 2), (1, 2)] \<and>
   \<not> in_band [0, 2] 1 (0, 1) \<and> \<not> in_band [0, 2] 1 (0, 2)"
proof (intro conjI)
  show "valid_pair [[0, 0], [1, 1]] [[0, 0, 0, 0], [1, 1, 1, 1]]"
    by (rule valid_pair_two_four)
  show "stripe_compute_cost_matrix [[0, 0], [1, 1]] [[0, 0, 0, 0], [1, 1, 1, 1]] 1
     = Inr ([[Fin 0], [Fin 0]], [0, 2])"
    by (simp add: stripe_eval)
  show "stripe_compute_path [[0, 0], [1, 1]] [[0, 0, 0, 0], [1, 1, 1, 1]] 1
     = Inr [(0, 0), (0, 1), (0, 2), (1, 2)]"
    by (simp add: stripe_eval stripe_loop.simps)
  show "\<not> in_band [0, 2] 1 (0, 1)" "\<not> in_band [0, 2] 1 (0, 2)"
    by (simp_all add: in_band_def)
qed

end
